theory Spec2Isabelle
  imports Main
begin

section \<open>livefile: a reloading cache over one JSON file\<close>

text \<open>
  The development embeds the \<^verbatim>\<open>livefile\<close> package of \<^verbatim>\<open>statefile.go\<close>
  (the revision with the injectable \<^verbatim>\<open>WriteFS\<close>, the error handler and the
  loaded callback), \<^verbatim>\<open>opts.go\<close> and the \<^verbatim>\<open>WriteFS\<close> interface file.

  The controller is sequential code run under one mutex, so an operation is a function
  from the controller and the world outside it to a result. The world outside is the
  file system behind \<^verbatim>\<open>WriteFS\<close>, together with a trace of everything the
  controller does that can be seen from outside: file system calls, errors handed to the
  error handler, values handed to the loaded callback.
\<close>

subsection \<open>Errors, panics and paths\<close>

text \<open>
  Go errors. \<open>Wrapf m e\<close> is \<^verbatim>\<open>fmt.Errorf(m + ": %w", e)\<close>; \<open>errors_Is\<close> is
  \<^verbatim>\<open>errors.Is\<close>, which follows the chain of wrapped errors.
\<close>

datatype error = ErrNotExist | EOF | Err string | Wrapf string error

fun errors_Is :: "error \<Rightarrow> error \<Rightarrow> bool" where
  "errors_Is (Wrapf m e) t = (Wrapf m e = t \<or> errors_Is e t)"
| "errors_Is e t = (e = t)"

text \<open>
  A panic ends the operation: either an error handler that panics with the error it was
  given (as \<^verbatim>\<open>DefaultErrorHandler\<close> does), or the runtime panic of a method call on a
  nil interface value.
\<close>

datatype panic = PanicError error | NilPointerDereference

text \<open>
  What an error handler does with an error: it returns to the code that called it, or it
  panics.
\<close>

datatype verdict = Returns | Panics

text \<open>
  A path in cleaned form: whether it is absolute, and its elements. \<open>Dir\<close> is
  \<^verbatim>\<open>path.Dir\<close>, \<open>Join\<close> is \<^verbatim>\<open>filepath.Join\<close> of a base and a relative path;
  the empty relative path is the empty string.
\<close>

datatype fpath = Path (IsAbs: bool) (elems: "string list")

definition Dir :: "fpath \<Rightarrow> fpath" where
  "Dir p = Path (IsAbs p) (butlast (elems p))"

definition Join :: "fpath \<Rightarrow> fpath \<Rightarrow> fpath" where
  "Join b p = Path (IsAbs b) (elems b @ elems p)"

definition ancestors :: "fpath \<Rightarrow> fpath list" where
  "ancestors d = map (\<lambda>k. Path (IsAbs d) (take k (elems d))) [0..<Suc (length (elems d))]"

subsection \<open>The file system behind WriteFS\<close>

text \<open>
  The repository has the interface of the file system (\<^verbatim>\<open>Open\<close>,
  \<^verbatim>\<open>OpenFile\<close>, \<^verbatim>\<open>MkdirAll\<close>, \<^verbatim>\<open>Remove\<close>, and handles with
  \<^verbatim>\<open>Stat\<close>, \<^verbatim>\<open>Seek\<close>, \<^verbatim>\<open>Read\<close>, \<^verbatim>\<open>Truncate\<close>,
  \<^verbatim>\<open>Write\<close>, \<^verbatim>\<open>Sync\<close>, \<^verbatim>\<open>Close\<close>) and a default implementation
  that hands every call to the \<^verbatim>\<open>os\<close> package. The file system itself is outside
  the repository; it is modelled with the semantics of the operating system's files: a
  map from paths to files (bytes and a modification time), a set of directories, a clock
  that stamps every change of a file, and for every kind of call an error it may be set
  to fail with. A failing call changes nothing. The times are integers counted from Go's
  zero \<^verbatim>\<open>time.Time\<close>, the initial value of \<^verbatim>\<open>lastModTime\<close>.
\<close>

datatype ioop = OpOpen | OpOpenFile | OpMkdirAll | OpStat | OpSeek | OpTruncate | OpWrite | OpSync

datatype iocall =
    COpen fpath | COpenFile fpath | CMkdirAll fpath
  | CStat | CSeek | CRead | CTruncate | CWrite string | CSync | CClose

datatype 'a event = Call iocall | Reported error | Loaded 'a

record fnode =
  content :: string
  mtime :: int

record 'a sys =
  files :: "fpath \<rightharpoonup> fnode"
  dirs :: "fpath set"
  now :: int
  fault :: "ioop \<Rightarrow> error option"
  trace :: "'a event list"

record handle =
  h_path :: fpath
  h_off :: nat

record FileInfo =
  Size :: nat
  ModTime :: int

definition logs :: "'a event list \<Rightarrow> 'a sys \<Rightarrow> 'a sys" where
  "logs es s = s\<lparr>trace := trace s @ es\<rparr>"

definition log :: "'a event \<Rightarrow> 'a sys \<Rightarrow> 'a sys" where
  "log e s = logs [e] s"

definition dir_exists :: "'a sys \<Rightarrow> fpath \<Rightarrow> bool" where
  "dir_exists s d = (elems d = [] \<or> d \<in> dirs s)"

text \<open>\<^verbatim>\<open>Open(name)\<close>: read-only; a missing file is \<^verbatim>\<open>fs.ErrNotExist\<close>.\<close>

definition Open :: "fpath \<Rightarrow> 'a sys \<Rightarrow> (error + handle) \<times> 'a sys" where
  "Open p s =
     (let s' = log (Call (COpen p)) s in
      case files s p of
        None \<Rightarrow> (Inl ErrNotExist, s')
      | Some n \<Rightarrow>
          (case fault s OpOpen of
             Some e \<Rightarrow> (Inl e, s')
           | None \<Rightarrow> (Inr \<lparr>h_path = p, h_off = 0\<rparr>, s')))"

text \<open>
  \<^verbatim>\<open>OpenFile(name, os.O_RDWR|os.O_CREATE, 0o660)\<close>: opens the file, creating it
  empty when it is missing; \<^verbatim>\<open>fs.ErrNotExist\<close> when its directory is missing.
\<close>

definition OpenFile :: "fpath \<Rightarrow> 'a sys \<Rightarrow> (error + handle) \<times> 'a sys" where
  "OpenFile p s =
     (let s' = log (Call (COpenFile p)) s in
      case fault s OpOpenFile of
        Some e \<Rightarrow> (Inl e, s')
      | None \<Rightarrow>
          (case files s p of
             Some n \<Rightarrow> (Inr \<lparr>h_path = p, h_off = 0\<rparr>, s')
           | None \<Rightarrow>
               if dir_exists s (Dir p)
               then (Inr \<lparr>h_path = p, h_off = 0\<rparr>,
                     s'\<lparr>files := (files s)(p \<mapsto> \<lparr>content = [], mtime = now s\<rparr>)\<rparr>)
               else (Inl ErrNotExist, s')))"

definition MkdirAll :: "fpath \<Rightarrow> 'a sys \<Rightarrow> error option \<times> 'a sys" where
  "MkdirAll d s =
     (let s' = log (Call (CMkdirAll d)) s in
      case fault s OpMkdirAll of
        Some e \<Rightarrow> (Some e, s')
      | None \<Rightarrow> (None, s'\<lparr>dirs := dirs s \<union> set (ancestors d)\<rparr>))"

text \<open>
  \<^verbatim>\<open>file.Stat()\<close>. On failure the operating system's \<^verbatim>\<open>Stat\<close> returns a nil
  \<^verbatim>\<open>FileInfo\<close> with the error: that is \<open>Inl\<close>.
\<close>

definition Stat :: "handle \<Rightarrow> 'a sys \<Rightarrow> (error + FileInfo) \<times> 'a sys" where
  "Stat h s =
     (let s' = log (Call CStat) s in
      case fault s OpStat of
        Some e \<Rightarrow> (Inl e, s')
      | None \<Rightarrow>
          (case files s (h_path h) of
             None \<Rightarrow> (Inl ErrNotExist, s')
           | Some n \<Rightarrow> (Inr \<lparr>Size = length (content n), ModTime = mtime n\<rparr>, s')))"

text \<open>\<^verbatim>\<open>file.Seek(off, io.SeekStart)\<close>.\<close>

definition Seek :: "handle \<Rightarrow> nat \<Rightarrow> 'a sys \<Rightarrow> error option \<times> handle \<times> 'a sys" where
  "Seek h off s =
     (let s' = log (Call CSeek) s in
      case fault s OpSeek of
        Some e \<Rightarrow> (Some e, h, s')
      | None \<Rightarrow> (None, h\<lparr>h_off := off\<rparr>, s'))"

text \<open>The bytes a reader of the handle gets: the file from the handle's offset on.\<close>

definition stream :: "handle \<Rightarrow> 'a sys \<Rightarrow> string" where
  "stream h s = (case files s (h_path h) of None \<Rightarrow> [] | Some n \<Rightarrow> drop (h_off h) (content n))"

text \<open>\<^verbatim>\<open>file.Truncate(size)\<close>: the offset of the handle stays where it is.\<close>

definition Truncate :: "handle \<Rightarrow> nat \<Rightarrow> 'a sys \<Rightarrow> error option \<times> 'a sys" where
  "Truncate h sz s =
     (let s' = log (Call CTruncate) s in
      case fault s OpTruncate of
        Some e \<Rightarrow> (Some e, s')
      | None \<Rightarrow>
          (case files s (h_path h) of
             None \<Rightarrow> (Some ErrNotExist, s')
           | Some n \<Rightarrow>
               (None, s'\<lparr>files := (files s)(h_path h \<mapsto>
                  \<lparr>content = take sz (content n) @ replicate (sz - length (content n)) (CHR 0x00),
                   mtime = now s\<rparr>)\<rparr>)))"

text \<open>
  \<^verbatim>\<open>file.Write(bs)\<close>: the bytes go to the handle's offset; a gap between the end of
  the file and the offset reads as zero bytes.
\<close>

definition Write :: "handle \<Rightarrow> string \<Rightarrow> 'a sys \<Rightarrow> error option \<times> handle \<times> 'a sys" where
  "Write h bs s =
     (let s' = log (Call (CWrite bs)) s in
      case fault s OpWrite of
        Some e \<Rightarrow> (Some e, h, s')
      | None \<Rightarrow>
          (case files s (h_path h) of
             None \<Rightarrow> (Some ErrNotExist, h, s')
           | Some n \<Rightarrow>
               (None, h\<lparr>h_off := h_off h + length bs\<rparr>,
                s'\<lparr>files := (files s)(h_path h \<mapsto>
                  \<lparr>content = take (h_off h) (content n)
                              @ replicate (h_off h - length (content n)) (CHR 0x00)
                              @ bs @ drop (h_off h + length bs) (content n),
                   mtime = now s\<rparr>)\<rparr>)))"

definition Sync :: "handle \<Rightarrow> 'a sys \<Rightarrow> error option \<times> 'a sys" where
  "Sync h s =
     (let s' = log (Call CSync) s in
      case fault s OpSync of Some e \<Rightarrow> (Some e, s') | None \<Rightarrow> (None, s'))"

definition Close :: "handle \<Rightarrow> 'a sys \<Rightarrow> 'a sys" where
  "Close h s = log (Call CClose) s"

subsection \<open>The JSON library\<close>

text \<open>
  \<^verbatim>\<open>encoding/json\<close> is not part of the repository and the cached type is generic, so
  the library is a parameter. \<open>MarshalIndent prefix indent v\<close> is the indented JSON
  text of \<open>v\<close>, or the error of marshalling it. \<open>Decode bs target\<close> is the outcome
  of \<^verbatim>\<open>Decode(&target)\<close> on a reader that yields the bytes \<open>bs\<close>: the error, the
  target afterwards (Go decodes into the value that is there), the decoder's
  \<^verbatim>\<open>InputOffset()\<close>, and how many bytes it took from the reader.
\<close>

record 'a decoded =
  d_err :: "error option"
  d_val :: 'a
  d_off :: nat
  d_read :: nat

record 'a json =
  MarshalIndent :: "string \<Rightarrow> string \<Rightarrow> 'a \<Rightarrow> error + string"
  Decode :: "string \<Rightarrow> 'a \<Rightarrow> 'a decoded"

text \<open>
  What \<^verbatim>\<open>Encode(v)\<close> of an encoder with \<^verbatim>\<open>SetIndent(prefix, indent)\<close> hands to
  its writer in one \<^verbatim>\<open>Write\<close>: the JSON text and a newline.
\<close>

definition Encode :: "'a json \<Rightarrow> string \<Rightarrow> string \<Rightarrow> 'a \<Rightarrow> error + string" where
  "Encode js prefix indent v =
     (case MarshalIndent js prefix indent v of
        Inl err \<Rightarrow> Inl err
      | Inr bs \<Rightarrow> Inr (bs @ [CHR 0x0A]))"

text \<open>
  Decoding the bytes \<open>bs\<close> of a reader. A reader with nothing left makes
  \<^verbatim>\<open>Decode\<close> return \<^verbatim>\<open>io.EOF\<close> before it has consumed anything (the case the
  source marks \<^verbatim>\<open>// File empty\<close>); otherwise the library decides.
\<close>

definition decoding :: "'a json \<Rightarrow> string \<Rightarrow> 'a \<Rightarrow> 'a decoded" where
  "decoding js bs target =
     (if bs = [] then \<lparr>d_err = Some EOF, d_val = target, d_off = 0, d_read = 0\<rparr>
      else Decode js bs target)"

text \<open>Decoding from a handle: its offset moves by what the decoder took.\<close>

definition decodeFrom :: "'a json \<Rightarrow> handle \<Rightarrow> 'a \<Rightarrow> 'a sys \<Rightarrow> 'a decoded \<times> handle \<times> 'a sys" where
  "decodeFrom js h target s =
     (let bs = stream h s;
          d = decoding js bs target
      in (d, h\<lparr>h_off := h_off h + min (d_read d) (length bs)\<rparr>, log (Call CRead) s))"

subsection \<open>The controller\<close>

text \<open>
  \<^verbatim>\<open>LiveFile[StateT]\<close>. The \<^verbatim>\<open>fs\<close> field is the world passed to every
  operation; the mutex has no counterpart, one operation runs at a time. A Go function
  value may be nil: \<^verbatim>\<open>defaultFunc\<close> and \<^verbatim>\<open>onLoaded\<close> are options. The
  callbacks get a pointer to the cached value, so they are functions on it.
\<close>

record 'a LiveFile =
  path :: fpath
  lastModTime :: int
  cached :: 'a
  defaultFunc :: "(unit \<Rightarrow> 'a) option"
  errHandler :: "error \<Rightarrow> verdict"
  onLoaded :: "('a \<Rightarrow> 'a) option"

type_synonym 'a crash = "panic \<times> 'a sys"

definition DefaultErrorHandler :: "error \<Rightarrow> verdict" where
  "DefaultErrorHandler err = Panics"

definition After :: "int \<Rightarrow> int \<Rightarrow> bool" where
  "After t u = (u < t)"

text \<open>The options of \<^verbatim>\<open>opts.go\<close>.\<close>

definition WithDefault :: "(unit \<Rightarrow> 'a) option \<Rightarrow> 'a LiveFile \<Rightarrow> 'a LiveFile" where
  "WithDefault f s = s\<lparr>defaultFunc := f\<rparr>"

definition WithErrorHandler :: "(error \<Rightarrow> verdict) \<Rightarrow> 'a LiveFile \<Rightarrow> 'a LiveFile" where
  "WithErrorHandler f s = s\<lparr>errHandler := f\<rparr>"

definition WithLoadedCallback :: "('a \<Rightarrow> 'a) option \<Rightarrow> 'a LiveFile \<Rightarrow> 'a LiveFile" where
  "WithLoadedCallback f s = s\<lparr>onLoaded := f\<rparr>"

text \<open>
  \<^verbatim>\<open>New(path, opts...)\<close>. \<open>zero\<close> is the zero value of the type parameter and
  \<open>BaseDir\<close> the package variable; the empty \<^verbatim>\<open>BaseDir\<close> is the empty relative
  path. The file system is no argument: \<^verbatim>\<open>New\<close> calls nothing of it.
\<close>

definition New :: "'a \<Rightarrow> fpath \<Rightarrow> fpath \<Rightarrow> ('a LiveFile \<Rightarrow> 'a LiveFile) list \<Rightarrow> 'a LiveFile" where
  "New zero BaseDir p opts =
     (let p' = (if \<not> IsAbs p \<and> BaseDir \<noteq> Path False [] then Join BaseDir p else p);
          lf = foldl (\<lambda>l opt. opt l)
                 \<lparr>path = p', lastModTime = 0, cached = zero, defaultFunc = None,
                  errHandler = DefaultErrorHandler, onLoaded = None\<rparr> opts
      in case defaultFunc lf of
           None \<Rightarrow> lf\<lparr>defaultFunc := Some (\<lambda>_. zero), cached := zero\<rparr>
         | Some def \<Rightarrow> lf\<lparr>cached := def ()\<rparr>)"

text \<open>A call of \<^verbatim>\<open>lf.errHandler(ctx, err)\<close>.\<close>

definition callErrHandler :: "'a LiveFile \<Rightarrow> error \<Rightarrow> 'a sys \<Rightarrow> 'a crash + 'a sys" where
  "callErrHandler lf err s =
     (case errHandler lf err of
        Panics \<Rightarrow> Inl (PanicError err, log (Reported err) s)
      | Returns \<Rightarrow> Inr (log (Reported err) s))"

text \<open>The call of \<^verbatim>\<open>lf.onLoaded(ctx, &lf.cached)\<close>, when the callback is set.\<close>

definition fireLoaded :: "'a LiveFile \<Rightarrow> 'a sys \<Rightarrow> 'a LiveFile \<times> 'a sys" where
  "fireLoaded lf s =
     (case onLoaded lf of
        None \<Rightarrow> (lf, s)
      | Some g \<Rightarrow> (lf\<lparr>cached := g (cached lf)\<rparr>, log (Loaded (cached lf)) s))"

definition forceLoad ::
  "'a json \<Rightarrow> 'a LiveFile \<Rightarrow> handle \<Rightarrow> 'a sys \<Rightarrow> 'a crash + ('a LiveFile \<times> handle \<times> 'a sys)" where
  "forceLoad js lf file s =
     (case Seek file 0 s of (serr, file1, s1) \<Rightarrow>
      (case (case serr of
               None \<Rightarrow> Inr s1
             | Some err \<Rightarrow> callErrHandler lf (Wrapf ''failed to rewind file'' err) s1) of
         Inl c \<Rightarrow> Inl c
       | Inr s2 \<Rightarrow>
          (case decodeFrom js file1 (cached lf) s2 of (d, file2, s3) \<Rightarrow>
             if d_err d = Some EOF \<and> d_off d = 0 then
               (case defaultFunc lf of
                  None \<Rightarrow> Inl (NilPointerDereference, s3)
                | Some def \<Rightarrow>
                    (case fireLoaded (lf\<lparr>cached := def ()\<rparr>) s3 of (lf', s4) \<Rightarrow> Inr (lf', file2, s4)))
             else
               (case d_err d of
                  Some err \<Rightarrow>
                    (case callErrHandler lf (Wrapf ''invalid JSON'' err) s3 of
                       Inl c \<Rightarrow> Inl c
                     | Inr s4 \<Rightarrow> Inr (lf\<lparr>cached := d_val d\<rparr>, file2, s4))
                | None \<Rightarrow>
                    (case fireLoaded (lf\<lparr>cached := d_val d\<rparr>) s3 of (lf', s4) \<Rightarrow> Inr (lf', file2, s4))))))"

text \<open>
  \<^verbatim>\<open>loadIfUpdated\<close>. After a failed \<^verbatim>\<open>Stat\<close> the source calls the error handler
  and goes on to \<^verbatim>\<open>stat.Size()\<close>, with \<^verbatim>\<open>stat\<close> nil.
\<close>

definition loadIfUpdated ::
  "'a json \<Rightarrow> 'a LiveFile \<Rightarrow> handle \<Rightarrow> 'a sys \<Rightarrow> 'a crash + ('a LiveFile \<times> handle \<times> 'a sys)" where
  "loadIfUpdated js lf file s =
     (case Stat file s of
        (Inl err, s1) \<Rightarrow>
          (case callErrHandler lf (Wrapf ''stat failed'' err) s1 of
             Inl c \<Rightarrow> Inl c
           | Inr s2 \<Rightarrow> Inl (NilPointerDereference, s2))
      | (Inr stat, s1) \<Rightarrow>
          if Size stat = 0 then Inr (lf, file, s1)
          else
            (let modTime = ModTime stat in
             if After modTime (lastModTime lf) then
               (case forceLoad js lf file s1 of
                  Inl c \<Rightarrow> Inl c
                | Inr (lf', file', s2) \<Rightarrow> Inr (lf'\<lparr>lastModTime := modTime\<rparr>, file', s2))
             else Inr (lf, file, s1)))"

definition ensure :: "'a json \<Rightarrow> 'a LiveFile \<Rightarrow> 'a sys \<Rightarrow> 'a crash + ('a LiveFile \<times> 'a sys)" where
  "ensure js lf s =
     (case Open (path lf) s of
        (Inl err, s1) \<Rightarrow>
          if \<not> errors_Is err ErrNotExist then
            (case callErrHandler lf err s1 of Inl c \<Rightarrow> Inl c | Inr s2 \<Rightarrow> Inr (lf, s2))
          else Inr (lf, s1)
      | (Inr file, s1) \<Rightarrow>
          (case loadIfUpdated js lf file s1 of
             Inl c \<Rightarrow> Inl c
           | Inr (lf', file', s2) \<Rightarrow> Inr (lf', Close file' s2)))"

definition View ::
  "'a json \<Rightarrow> 'a LiveFile \<Rightarrow> ('a \<Rightarrow> 'a) \<Rightarrow> 'a sys \<Rightarrow> 'a crash + ('a LiveFile \<times> 'a sys)" where
  "View js lf f s =
     (case ensure js lf s of
        Inl c \<Rightarrow> Inl c
      | Inr (lf', s') \<Rightarrow> Inr (lf'\<lparr>cached := f (cached lf')\<rparr>, s'))"

definition Peek :: "'a json \<Rightarrow> 'a LiveFile \<Rightarrow> 'a sys \<Rightarrow> 'a crash + ('a \<times> 'a LiveFile \<times> 'a sys)" where
  "Peek js lf s =
     (case ensure js lf s of
        Inl c \<Rightarrow> Inl c
      | Inr (lf', s') \<Rightarrow> Inr (cached lf', lf', s'))"

text \<open>
  \<^verbatim>\<open>Update\<close>, in the pieces of its body. \<open>openOrCreate\<close> is the opening of the
  file with the one retry after \<^verbatim>\<open>MkdirAll\<close>; \<open>commit\<close> is the part after a
  successful \<^verbatim>\<open>f\<close>; \<open>deferClose\<close> is \<^verbatim>\<open>defer file.Close()\<close>, which also
  runs when the body panics. The update function gets the pointer to the cached value
  and returns an error or nil: it is a function from the value to the value it leaves and
  the error.
\<close>

definition openOrCreate :: "fpath \<Rightarrow> 'a sys \<Rightarrow> (error + handle) \<times> 'a sys" where
  "openOrCreate p s =
     (case OpenFile p s of
        (Inl err, s1) \<Rightarrow>
          if errors_Is err ErrNotExist then
            (case MkdirAll (Dir p) s1 of
               (Some err', s2) \<Rightarrow> (Inl err', s2)
             | (None, s2) \<Rightarrow> OpenFile p s2)
          else (Inl err, s1)
      | (Inr file, s1) \<Rightarrow> (Inr file, s1))"

definition commit ::
  "'a json \<Rightarrow> 'a LiveFile \<Rightarrow> handle \<Rightarrow> 'a sys \<Rightarrow> error option \<times> 'a LiveFile \<times> 'a sys" where
  "commit js lf file s =
     (case Truncate file 0 s of
        (Some err, s1) \<Rightarrow> (Some err, lf, s1)
      | (None, s1) \<Rightarrow>
          (case Encode js [] ''  '' (cached lf) of
             Inl err \<Rightarrow> (Some err, lf, s1)
           | Inr bs \<Rightarrow>
               (case Write file bs s1 of
                  (Some err, file1, s2) \<Rightarrow> (Some err, lf, s2)
                | (None, file1, s2) \<Rightarrow>
                    (case Sync file1 s2 of
                       (Some err, s3) \<Rightarrow> (Some err, lf, s3)
                     | (None, s3) \<Rightarrow>
                         (case Stat file1 s3 of
                            (Inl err, s4) \<Rightarrow> (Some err, lf, s4)
                          | (Inr stat, s4) \<Rightarrow> (None, lf\<lparr>lastModTime := ModTime stat\<rparr>, s4))))))"

definition deferClose ::
  "handle \<Rightarrow> 'a crash + ('r \<times> 'a LiveFile \<times> 'a sys) \<Rightarrow> 'a crash + ('r \<times> 'a LiveFile \<times> 'a sys)" where
  "deferClose file r =
     (case r of
        Inl (p, s) \<Rightarrow> Inl (p, Close file s)
      | Inr (x, lf, s) \<Rightarrow> Inr (x, lf, Close file s))"

definition Update ::
  "'a json \<Rightarrow> 'a LiveFile \<Rightarrow> ('a \<Rightarrow> 'a \<times> error option) \<Rightarrow> 'a sys
     \<Rightarrow> 'a crash + (error option \<times> 'a LiveFile \<times> 'a sys)" where
  "Update js lf f s =
     (case ensure js lf s of
        Inl c \<Rightarrow> Inl c
      | Inr (lf1, s1) \<Rightarrow>
          (case openOrCreate (path lf1) s1 of
             (Inl err, s2) \<Rightarrow> Inr (Some err, lf1, s2)
           | (Inr file, s2) \<Rightarrow>
               deferClose file
                 (case loadIfUpdated js lf1 file s2 of
                    Inl c \<Rightarrow> Inl c
                  | Inr (lf2, file1, s3) \<Rightarrow>
                      (case f (cached lf2) of
                         (v, Some err) \<Rightarrow>
                           (case forceLoad js (lf2\<lparr>cached := v\<rparr>) file1 s3 of
                              Inl c \<Rightarrow> Inl c
                            | Inr (lf3, file2, s4) \<Rightarrow> Inr (Some err, lf3, s4))
                       | (v, None) \<Rightarrow> Inr (commit js (lf2\<lparr>cached := v\<rparr>) file1 s3)))))"

subsection \<open>Notions used in the statements\<close>

text \<open>
  The start of \<^verbatim>\<open>Update\<close>, up to the call of the update function: the freshness
  check, the opening of the file and the second check on the open handle. It yields the
  error of the opening, or the handle with the controller and the world in which the
  update function is called.
\<close>

definition Update_begin ::
  "'a json \<Rightarrow> 'a LiveFile \<Rightarrow> 'a sys \<Rightarrow> 'a crash + ((error + handle) \<times> 'a LiveFile \<times> 'a sys)" where
  "Update_begin js lf s =
     (case ensure js lf s of
        Inl c \<Rightarrow> Inl c
      | Inr (lf1, s1) \<Rightarrow>
          (case openOrCreate (path lf1) s1 of
             (Inl err, s2) \<Rightarrow> Inr (Inl err, lf1, s2)
           | (Inr file, s2) \<Rightarrow>
               (case loadIfUpdated js lf1 file s2 of
                  Inl (p, s3) \<Rightarrow> Inl (p, Close file s3)
                | Inr (lf2, file1, s3) \<Rightarrow> Inr (Inr file1, lf2, s3))))"

text \<open>The value the loaded callback leaves in the cache when it is handed \<open>v\<close>.\<close>

definition observed :: "'a LiveFile \<Rightarrow> 'a \<Rightarrow> 'a" where
  "observed lf v = (case onLoaded lf of None \<Rightarrow> v | Some g \<Rightarrow> g v)"

text \<open>The trace of that call: nothing when no callback is set.\<close>

definition fired :: "'a LiveFile \<Rightarrow> 'a \<Rightarrow> 'a event list" where
  "fired lf v = (case onLoaded lf of None \<Rightarrow> [] | Some g \<Rightarrow> [Loaded v])"

text \<open>
  The value that decoding the bytes \<open>bs\<close> into \<open>target\<close> loads: the default when the
  decoder reports the end of input at offset zero, the decoded value when it reports no
  error, none when it reports another error.
\<close>

definition restored :: "'a json \<Rightarrow> 'a LiveFile \<Rightarrow> string \<Rightarrow> 'a \<Rightarrow> 'a option" where
  "restored js lf bs target =
     (let d = decoding js bs target in
      if d_err d = Some EOF \<and> d_off d = 0 then map_option (\<lambda>def. def ()) (defaultFunc lf)
      else if d_err d = None then Some (d_val d)
      else None)"


text \<open>The world an operation leaves, whether it returns or panics.\<close>

definition final_sys :: "'a crash + ('r \<times> 'a LiveFile \<times> 'a sys) \<Rightarrow> 'a sys" where
  "final_sys r = (case r of Inl (p, s) \<Rightarrow> s | Inr (x, lf, s) \<Rightarrow> s)"

text \<open>
  Sequences of operations. Between the operations of the controller the world moves:
  another process writes the file (as \<^verbatim>\<open>os.WriteFile\<close> in the tests) or removes it,
  and the clock advances.
\<close>

datatype 'a step =
    DoView "'a \<Rightarrow> 'a" | DoPeek | DoUpdate "'a \<Rightarrow> 'a \<times> error option"
  | ExtWrite string | ExtRemove | Tick nat

datatype 'a out = Viewed | Peeked 'a | Updated "error option" | Outside

definition step ::
  "'a json \<Rightarrow> 'a step \<Rightarrow> 'a LiveFile \<times> 'a sys \<Rightarrow> 'a crash + ('a out \<times> 'a LiveFile \<times> 'a sys)" where
  "step js st w =
     (case w of (lf, s) \<Rightarrow>
      (case st of
         DoView f \<Rightarrow>
           (case View js lf f s of Inl c \<Rightarrow> Inl c | Inr (lf', s') \<Rightarrow> Inr (Viewed, lf', s'))
       | DoPeek \<Rightarrow>
           (case Peek js lf s of Inl c \<Rightarrow> Inl c | Inr (v, lf', s') \<Rightarrow> Inr (Peeked v, lf', s'))
       | DoUpdate f \<Rightarrow>
           (case Update js lf f s of Inl c \<Rightarrow> Inl c | Inr (r, lf', s') \<Rightarrow> Inr (Updated r, lf', s'))
       | ExtWrite bs \<Rightarrow>
           Inr (Outside, lf, s\<lparr>files := (files s)(path lf \<mapsto> \<lparr>content = bs, mtime = now s\<rparr>)\<rparr>)
       | ExtRemove \<Rightarrow> Inr (Outside, lf, s\<lparr>files := (files s)(path lf := None)\<rparr>)
       | Tick n \<Rightarrow> Inr (Outside, lf, s\<lparr>now := now s + int n\<rparr>)))"

text \<open>The run of a sequence: what every step returned and left, up to the first panic.\<close>

fun run ::
  "'a json \<Rightarrow> 'a step list \<Rightarrow> 'a LiveFile \<times> 'a sys \<Rightarrow> ('a out \<times> 'a LiveFile \<times> 'a sys) list" where
  "run js [] w = []"
| "run js (st # sts) w =
     (case step js st w of
        Inl c \<Rightarrow> []
      | Inr (out, w') \<Rightarrow> (out, w') # run js sts w')"

definition outputs :: "('a out \<times> 'a LiveFile \<times> 'a sys) list \<Rightarrow> 'a out list" where
  "outputs r = map fst r"

definition modTimes :: "('a out \<times> 'a LiveFile \<times> 'a sys) list \<Rightarrow> int list" where
  "modTimes r = map (\<lambda>(out, lf, s). lastModTime lf) r"

text \<open>
  Nothing is dated ahead of the clock: neither the controller's last-known modification
  time nor the modification time of its file.
\<close>

definition stamps_ok :: "'a LiveFile \<times> 'a sys \<Rightarrow> bool" where
  "stamps_ok w =
     (case w of (lf, s) \<Rightarrow>
        lastModTime lf \<le> now s
        \<and> (case files s (path lf) of None \<Rightarrow> True | Some n \<Rightarrow> mtime n \<le> now s))"

text \<open>Two worlds that differ in the trace only.\<close>

definition same_disk :: "'a sys \<Rightarrow> 'a sys \<Rightarrow> bool" where
  "same_disk s s' = (files s' = files s \<and> dirs s' = dirs s \<and> now s' = now s \<and> fault s' = fault s)"

text \<open>Two controllers with the same path, default, error handler and callback.\<close>

definition same_setup :: "'a LiveFile \<Rightarrow> 'a LiveFile \<Rightarrow> bool" where
  "same_setup lf lf' = (path lf' = path lf \<and> defaultFunc lf' = defaultFunc lf
       \<and> errHandler lf' = errHandler lf \<and> onLoaded lf' = onLoaded lf)"

text \<open>The files after \<^verbatim>\<open>Update\<close> has opened its file: the file is the one that was there, or an empty one.\<close>

definition opened_files :: "fpath \<Rightarrow> 'a sys \<Rightarrow> fpath \<rightharpoonup> fnode" where
  "opened_files p s =
     (case files s p of
        None \<Rightarrow> (files s)(p \<mapsto> \<lparr>content = [], mtime = now s\<rparr>)
      | Some n \<Rightarrow> files s)"

text \<open>The directories after that opening, and the calls it makes.\<close>

definition opened_dirs :: "fpath \<Rightarrow> 'a sys \<Rightarrow> fpath set" where
  "opened_dirs p s =
     (if files s p = None \<and> \<not> dir_exists s (Dir p) then dirs s \<union> set (ancestors (Dir p))
      else dirs s)"

definition open_calls :: "fpath \<Rightarrow> 'a sys \<Rightarrow> 'a event list" where
  "open_calls p s =
     (if files s p = None \<and> \<not> dir_exists s (Dir p)
      then [Call (COpenFile p), Call (CMkdirAll (Dir p)), Call (COpenFile p)]
      else [Call (COpenFile p)])"

text \<open>The bytes of the controller's file; none when there is no file.\<close>

definition on_disk :: "'a LiveFile \<Rightarrow> 'a sys \<Rightarrow> string" where
  "on_disk lf s = (case files s (path lf) of None \<Rightarrow> [] | Some n \<Rightarrow> content n)"

text \<open>The panic an operation ended with, if it did.\<close>

definition panic_of :: "'a crash + 'r \<Rightarrow> panic option" where
  "panic_of r = (case r of Inl (p, s) \<Rightarrow> Some p | Inr x \<Rightarrow> None)"

text \<open>The error an update returned, if it returned.\<close>

definition returned :: "'a crash + (error option \<times> 'r) \<Rightarrow> error option option" where
  "returned r = (case r of Inl c \<Rightarrow> None | Inr (e, x) \<Rightarrow> Some e)"

subsection \<open>A concrete instance\<close>

text \<open>
  The instance the statements are tried on: the cached type is \<^verbatim>\<open>bool\<close>, whose JSON
  texts are \<^verbatim>\<open>true\<close> and \<^verbatim>\<open>false\<close>, and the file is the test file of the
  repository's tests, in a directory that does not exist yet.
\<close>

definition is_space :: "char \<Rightarrow> bool" where
  "is_space c = (c = CHR '' '' \<or> c = CHR 0x0A \<or> c = CHR 0x0D \<or> c = CHR 0x09)"

definition bool_json :: "bool json" where
  "bool_json = \<lparr>
     MarshalIndent = (\<lambda>prefix indent b. Inr (if b then ''true'' else ''false'')),
     Decode = (\<lambda>bs target.
       let t = dropWhile is_space bs; k = length bs - length t in
       if t = [] then \<lparr>d_err = Some EOF, d_val = target, d_off = 0, d_read = length bs\<rparr>
       else if take 4 t = ''true'' then
         \<lparr>d_err = None, d_val = True, d_off = k + 4, d_read = length bs\<rparr>
       else if take 5 t = ''false'' then
         \<lparr>d_err = None, d_val = False, d_off = k + 5, d_read = length bs\<rparr>
       else \<lparr>d_err = Some (Err ''invalid character''), d_val = target, d_off = k,
             d_read = length bs\<rparr>)\<rparr>"

definition testFilePath :: fpath where
  "testFilePath = Path True [''tmp'', ''testfile.json'']"

definition disk0 :: "bool sys" where
  "disk0 = \<lparr>files = Map.empty, dirs = {}, now = 5, fault = (\<lambda>_. None), trace = []\<rparr>"

definition ctl0 :: "bool LiveFile" where
  "ctl0 = New False (Path False []) testFilePath
            [WithDefault (Some (\<lambda>_. False)), WithErrorHandler DefaultErrorHandler,
             WithLoadedCallback None]"

text \<open>The same controller with a loaded callback, one that leaves the value as it is.\<close>

definition ctl_watch :: "bool LiveFile" where
  "ctl_watch = New False (Path False []) testFilePath
     [WithDefault (Some (\<lambda>_. False)), WithErrorHandler DefaultErrorHandler,
      WithLoadedCallback (Some (\<lambda>v. v))]"

text \<open>The same controller with an error handler that returns.\<close>

definition ctl_resume :: "bool LiveFile" where
  "ctl_resume = New False (Path False []) testFilePath
     [WithDefault (Some (\<lambda>_. False)), WithErrorHandler (\<lambda>err. Returns), WithLoadedCallback None]"

text \<open>The controller after its cached value was set, and after it has loaded the file stamped 7.\<close>

definition ctl_true :: "bool LiveFile" where
  "ctl_true = ctl0\<lparr>cached := True\<rparr>"

definition ctl_seen :: "bool LiveFile" where
  "ctl_seen = ctl0\<lparr>cached := True, lastModTime := 7\<rparr>"

text \<open>Worlds in which the file exists: holding \<^verbatim>\<open>true\<close>, empty, holding one newline.\<close>

definition disk_true :: "bool sys" where
  "disk_true = \<lparr>files = [testFilePath \<mapsto> \<lparr>content = ''true'' @ [CHR 0x0A], mtime = 7\<rparr>],
                 dirs = {Path True [''tmp'']}, now = 9, fault = (\<lambda>_. None), trace = []\<rparr>"

definition disk_empty :: "bool sys" where
  "disk_empty = disk_true\<lparr>files := [testFilePath \<mapsto> \<lparr>content = [], mtime = 7\<rparr>]\<rparr>"

definition disk_blank :: "bool sys" where
  "disk_blank = disk_true\<lparr>files := [testFilePath \<mapsto> \<lparr>content = [CHR 0x0A], mtime = 7\<rparr>]\<rparr>"

text \<open>The file is there, and \<^verbatim>\<open>Stat\<close> fails on it.\<close>

definition disk_stat_fails :: "bool sys" where
  "disk_stat_fails = disk_true\<lparr>fault := (\<lambda>_. None)(OpStat \<mapsto> Err ''input/output error'')\<rparr>"

text \<open>The file is there, and the read-only \<^verbatim>\<open>Open\<close> fails on it.\<close>

definition disk_open_fails :: "bool sys" where
  "disk_open_fails = disk_true\<lparr>fault := (\<lambda>_. None)(OpOpen \<mapsto> Err ''too many open files'')\<rparr>"

text \<open>
  The file is not there for the read-only \<^verbatim>\<open>Open\<close> and is there, holding
  \<^verbatim>\<open>true\<close>, for every later call: another process has created it between the
  read-only \<^verbatim>\<open>Open\<close> of the freshness check and the \<^verbatim>\<open>OpenFile\<close> of the
  update.
\<close>

definition disk_appears :: "bool sys" where
  "disk_appears = disk_true\<lparr>fault := (\<lambda>_. None)(OpOpen \<mapsto> ErrNotExist)\<rparr>"

text \<open>The file carries a modification time ahead of the clock.\<close>

definition disk_ahead :: "bool sys" where
  "disk_ahead = disk_true\<lparr>files := [testFilePath \<mapsto> \<lparr>content = ''true'' @ [CHR 0x0A], mtime = 100\<rparr>],
                   now := 50\<rparr>"

text \<open>Update functions: one sets the value, one sets it and fails, one changes nothing.\<close>

definition setTrue :: "bool \<Rightarrow> bool \<times> error option" where
  "setTrue v = (True, None)"

definition failing :: "bool \<Rightarrow> bool \<times> error option" where
  "failing v = (True, Some (Err ''something failed''))"

definition keep :: "bool \<Rightarrow> bool \<times> error option" where
  "keep v = (v, None)"

text \<open>The handle and the worlds of an update over \<open>disk0\<close>: after the file was opened, and after the value \<^verbatim>\<open>true\<close> was written.\<close>

definition handle0 :: handle where
  "handle0 = \<lparr>h_path = testFilePath, h_off = 0\<rparr>"

definition disk0_opened :: "bool sys" where
  "disk0_opened =
     logs [Call (COpen testFilePath), Call (COpenFile testFilePath), Call (CMkdirAll (Path True [''tmp''])),
           Call (COpenFile testFilePath), Call CStat]
       (disk0\<lparr>files := [testFilePath \<mapsto> \<lparr>content = [], mtime = 5\<rparr>],
               dirs := {Path True [], Path True [''tmp'']}\<rparr>)"

definition disk0_written :: "bool sys" where
  "disk0_written =
     logs [Call CTruncate, Call (CWrite (''true'' @ [CHR 0x0A])), Call CSync, Call CStat, Call CClose]
       (disk0_opened\<lparr>files := [testFilePath \<mapsto> \<lparr>content = ''true'' @ [CHR 0x0A], mtime = 5\<rparr>]\<rparr>)"

section \<open>Properties\<close>

text \<open>
  The statements on what an operation does are about runs in which the calls of the file
  system succeed and the contents of the file decode: a failure is reported to the error
  handler or returned to the caller, which is the subject of statements of its own. The
  hypothesis that an update got as far as calling the update function is stated with
  \<open>Update_begin\<close>, which gives the controller and the world the function is called
  in. Where the code does not do what its documentation says, the statement is the run of
  the code on an input that shows it.
\<close>

subsection \<open>What the pieces do\<close>

lemma logs_fields [simp]:
  "files (logs es s) = files s" "dirs (logs es s) = dirs s" "now (logs es s) = now s"
  "fault (logs es s) = fault s" "trace (logs es s) = trace s @ es"
  by (simp_all add: logs_def)

lemma logs_logs [simp]: "logs es (logs fs s) = logs (fs @ es) s"
  by (simp add: logs_def)

lemma logs_Nil [simp]: "logs [] s = s"
  by (simp add: logs_def)

lemma stream_logs [simp]: "stream h (logs es s) = stream h s"
  by (simp add: stream_def)

lemma fireLoaded_eq: "fireLoaded lf s = (lf\<lparr>cached := observed lf (cached lf)\<rparr>, logs (fired lf (cached lf)) s)"
  by (simp add: fireLoaded_def observed_def fired_def log_def split: option.splits)

lemma observed_upd [simp]: "observed (lf\<lparr>cached := v\<rparr>) = observed lf"
  "observed (lf\<lparr>lastModTime := t\<rparr>) = observed lf"
  by (simp_all add: observed_def fun_eq_iff)

lemma fired_upd [simp]: "fired (lf\<lparr>cached := v\<rparr>) = fired lf"
  "fired (lf\<lparr>lastModTime := t\<rparr>) = fired lf"
  by (simp_all add: fired_def fun_eq_iff)

lemma same_disk_logs [simp]: "same_disk s (logs es s') = same_disk s s'" "same_disk s s"
  "same_disk (logs es s) s' = same_disk s s'"
  by (simp_all add: same_disk_def)

lemma same_setup_upd [simp]: "same_setup lf (lf'\<lparr>cached := c\<rparr>) = same_setup lf lf'"
  "same_setup lf (lf'\<lparr>lastModTime := t\<rparr>) = same_setup lf lf'" "same_setup lf lf"
  by (simp_all add: same_setup_def)

lemma forceLoad_shape:
  "case forceLoad js lf h s of
     Inl (p, s') \<Rightarrow> same_disk s s'
   | Inr (lf', h', s') \<Rightarrow> same_disk s s' \<and> same_setup lf lf' \<and> lastModTime lf' = lastModTime lf
        \<and> h_path h' = h_path h"
  by (simp add: forceLoad_def Seek_def decodeFrom_def Let_def log_def fireLoaded_eq callErrHandler_def
      split: option.splits verdict.splits)

lemma forceLoad_frame:
  assumes "forceLoad js lf h s = Inr (lf', h', s')"
  shows "same_disk s s' \<and> same_setup lf lf' \<and> lastModTime lf' = lastModTime lf \<and> h_path h' = h_path h"
  using forceLoad_shape [where js=js and lf=lf and h=h and s=s] assms by simp

lemma forceLoad_crash_frame:
  assumes "forceLoad js lf h s = Inl (p, s')"
  shows "same_disk s s'"
  using forceLoad_shape [where js=js and lf=lf and h=h and s=s] assms by simp

lemma forceLoad_loads:
  assumes "fault s OpSeek = None"
      and "restored js lf (stream (h\<lparr>h_off := 0\<rparr>) s) (cached lf) = Some r"
  shows "forceLoad js lf h s =
           Inr (lf\<lparr>cached := observed lf r\<rparr>,
                h\<lparr>h_off := min (d_read (decoding js (stream (h\<lparr>h_off := 0\<rparr>) s) (cached lf)))
                                   (length (stream (h\<lparr>h_off := 0\<rparr>) s))\<rparr>,
                logs ([Call CSeek, Call CRead] @ fired lf r) s)"
  using assms
  by (auto simp add: forceLoad_def Seek_def decodeFrom_def restored_def Let_def log_def fireLoaded_eq
      split: option.splits if_splits)

lemma loadIfUpdated_idle:
  assumes "fault s OpStat = None" and "files s (h_path h) = Some n"
      and "content n = [] \<or> mtime n \<le> lastModTime lf"
  shows "loadIfUpdated js lf h s = Inr (lf, h, logs [Call CStat] s)"
  using assms by (auto simp add: loadIfUpdated_def Stat_def Let_def log_def After_def)

lemma loadIfUpdated_reload:
  assumes "fault s OpStat = None" and "files s (h_path h) = Some n"
      and "content n \<noteq> []" and "lastModTime lf < mtime n"
  shows "loadIfUpdated js lf h s =
           (case forceLoad js lf h (logs [Call CStat] s) of
              Inl c \<Rightarrow> Inl c
            | Inr (lf', h', s') \<Rightarrow> Inr (lf'\<lparr>lastModTime := mtime n\<rparr>, h', s'))"
  using assms by (simp add: loadIfUpdated_def Stat_def Let_def log_def After_def)

lemma loadIfUpdated_shape:
  "case loadIfUpdated js lf h s of
     Inl (p, s') \<Rightarrow> same_disk s s'
   | Inr (lf', h', s') \<Rightarrow> same_disk s s' \<and> same_setup lf lf' \<and> h_path h' = h_path h
        \<and> fault s OpStat = None
        \<and> (\<exists>n. files s (h_path h) = Some n
              \<and> (content n = [] \<or> mtime n \<le> lastModTime lf')
              \<and> (lastModTime lf' = lastModTime lf
                  \<or> (lastModTime lf < mtime n \<and> lastModTime lf' = mtime n)))"
proof (cases "fault s OpStat")
  case (Some e)
  then show ?thesis
    by (simp add: loadIfUpdated_def Stat_def Let_def log_def callErrHandler_def split: verdict.splits)
next
  case None
  show ?thesis
  proof (cases "files s (h_path h)")
    case N: None
    with None show ?thesis
      by (simp add: loadIfUpdated_def Stat_def Let_def log_def callErrHandler_def split: verdict.splits)
  next
    case (Some n)
    show ?thesis
    proof (cases "content n = [] \<or> mtime n \<le> lastModTime lf")
      case True
      with None Some show ?thesis by (simp add: loadIfUpdated_idle)
    next
      case False
      then have "content n \<noteq> []" "lastModTime lf < mtime n" by auto
      with None Some forceLoad_shape [where js=js and lf=lf and h=h and s="logs [Call CStat] s"]
      show ?thesis
        by (simp add: loadIfUpdated_reload split: sum.splits prod.splits)
    qed
  qed
qed

lemma loadIfUpdated_frame:
  assumes "loadIfUpdated js lf h s = Inr (lf', h', s')"
  shows "same_disk s s' \<and> same_setup lf lf' \<and> h_path h' = h_path h"
  using loadIfUpdated_shape [where js=js and lf=lf and h=h and s=s] assms by simp

lemma loadIfUpdated_post:
  assumes "loadIfUpdated js lf h s = Inr (lf', h', s')"
  shows "fault s OpStat = None
       \<and> (\<exists>n. files s (h_path h) = Some n
              \<and> (content n = [] \<or> mtime n \<le> lastModTime lf')
              \<and> (lastModTime lf' = lastModTime lf
                  \<or> (lastModTime lf < mtime n \<and> lastModTime lf' = mtime n)))"
  using loadIfUpdated_shape [where js=js and lf=lf and h=h and s=s] assms by simp

lemma loadIfUpdated_crash_frame:
  assumes "loadIfUpdated js lf h s = Inl (p, s')"
  shows "same_disk s s'"
  using loadIfUpdated_shape [where js=js and lf=lf and h=h and s=s] assms by simp

lemma ensure_absent:
  "files s (path lf) = None \<Longrightarrow> ensure js lf s = Inr (lf, logs [Call (COpen (path lf))] s)"
  by (simp add: ensure_def Open_def Let_def log_def)

lemma ensure_present:
  assumes "files s (path lf) = Some n" and "fault s OpOpen = None"
  shows "ensure js lf s =
           (case loadIfUpdated js lf \<lparr>h_path = path lf, h_off = 0\<rparr> (logs [Call (COpen (path lf))] s) of
              Inl c \<Rightarrow> Inl c
            | Inr (lf', h', s') \<Rightarrow> Inr (lf', logs [Call CClose] s'))"
  using assms by (simp add: ensure_def Open_def Let_def log_def Close_def split: sum.splits prod.splits)

lemma ensure_shape:
  "case ensure js lf s of
     Inl (p, s') \<Rightarrow> same_disk s s'
   | Inr (lf', s') \<Rightarrow> same_disk s s' \<and> same_setup lf lf'
        \<and> (lastModTime lf' = lastModTime lf
            \<or> (\<exists>n. files s (path lf) = Some n \<and> lastModTime lf < mtime n \<and> lastModTime lf' = mtime n))
        \<and> (fault s OpOpen = None \<longrightarrow>
             (\<forall>n. files s (path lf) = Some n \<longrightarrow>
                fault s OpStat = None \<and> (content n = [] \<or> mtime n \<le> lastModTime lf')))"
proof (cases "files s (path lf)")
  case None
  then show ?thesis by (simp add: ensure_absent)
next
  case (Some n)
  show ?thesis
  proof (cases "fault s OpOpen")
    case F: (Some e)
    with Some show ?thesis
      by (simp add: ensure_def Open_def Let_def log_def callErrHandler_def split: verdict.splits)
  next
    case None
    with Some loadIfUpdated_shape [where js=js and lf=lf and h="\<lparr>h_path = path lf, h_off = 0\<rparr>"
        and s="logs [Call (COpen (path lf))] s"]
    show ?thesis
      by (auto simp add: ensure_present same_disk_def split: sum.splits prod.splits)
  qed
qed

lemma ensure_frame:
  assumes "ensure js lf s = Inr (lf', s')"
  shows "same_disk s s' \<and> same_setup lf lf'"
  using ensure_shape [where js=js and lf=lf and s=s] assms by simp

lemma ensure_crash_frame:
  assumes "ensure js lf s = Inl (p, s')"
  shows "same_disk s s'"
  using ensure_shape [where js=js and lf=lf and s=s] assms by simp

lemma ensure_post:
  assumes "ensure js lf s = Inr (lf', s')" and "fault s OpOpen = None" and "files s (path lf) = Some n"
  shows "fault s OpStat = None \<and> (content n = [] \<or> mtime n \<le> lastModTime lf')"
  using ensure_shape [where js=js and lf=lf and s=s] assms by simp

lemma ensure_mono:
  assumes "ensure js lf s = Inr (lf', s')"
  shows "lastModTime lf' = lastModTime lf
       \<or> (\<exists>n. files s (path lf) = Some n \<and> lastModTime lf < mtime n \<and> lastModTime lf' = mtime n)"
  using ensure_shape [where js=js and lf=lf and s=s] assms by simp

lemma logs_update [simp]:
  "(logs es s)\<lparr>files := f\<rparr> = logs es (s\<lparr>files := f\<rparr>)"
  "(logs es s)\<lparr>dirs := d\<rparr> = logs es (s\<lparr>dirs := d\<rparr>)"
  "(logs es s)\<lparr>now := t\<rparr> = logs es (s\<lparr>now := t\<rparr>)"
  by (simp_all add: logs_def)

lemma self_in_ancestors: "d \<in> set (ancestors d)"
proof -
  have "Path (IsAbs d) (take (length (elems d)) (elems d)) \<in> set (ancestors d)"
    unfolding ancestors_def set_map by (rule imageI) simp
  then show ?thesis by simp
qed

lemma openOrCreate_ok:
  assumes "fault s OpOpenFile = None" and "fault s OpMkdirAll = None"
  shows "openOrCreate p s =
           (Inr \<lparr>h_path = p, h_off = 0\<rparr>,
            logs (open_calls p s) (s\<lparr>files := opened_files p s, dirs := opened_dirs p s\<rparr>))"
  using assms self_in_ancestors [of "Dir p"]
  by (simp add: openOrCreate_def OpenFile_def MkdirAll_def Let_def log_def opened_files_def
      opened_dirs_def open_calls_def dir_exists_def split: option.splits)

lemma openOrCreate_shape:
  "case openOrCreate p s of
     (Inl err, s') \<Rightarrow> fault s' = fault s \<and> now s' = now s \<and> files s' = files s
   | (Inr h, s') \<Rightarrow> h = \<lparr>h_path = p, h_off = 0\<rparr> \<and> fault s OpOpenFile = None
        \<and> fault s' = fault s \<and> now s' = now s \<and> files s' = opened_files p s"
  by (simp add: openOrCreate_def OpenFile_def MkdirAll_def Let_def log_def opened_files_def
      split: option.splits)

lemma openOrCreate_post:
  assumes "openOrCreate p s = (Inr h, s')"
  shows "h = \<lparr>h_path = p, h_off = 0\<rparr> \<and> fault s OpOpenFile = None
        \<and> fault s' = fault s \<and> now s' = now s \<and> files s' = opened_files p s"
  using openOrCreate_shape [where p=p and s=s] assms by simp

lemma opened_files_at:
  "opened_files p s p = Some (case files s p of None \<Rightarrow> \<lparr>content = [], mtime = now s\<rparr> | Some n \<Rightarrow> n)"
  by (simp add: opened_files_def split: option.splits)

lemma Update_unfold:
  "Update js lf f s =
     (case Update_begin js lf s of
        Inl c \<Rightarrow> Inl c
      | Inr (Inl err, lf1, s1) \<Rightarrow> Inr (Some err, lf1, s1)
      | Inr (Inr h, lf1, s1) \<Rightarrow>
          deferClose h
            (case f (cached lf1) of
               (v, Some err) \<Rightarrow>
                 (case forceLoad js (lf1\<lparr>cached := v\<rparr>) h s1 of
                    Inl c \<Rightarrow> Inl c
                  | Inr (lf3, h2, s4) \<Rightarrow> Inr (Some err, lf3, s4))
             | (v, None) \<Rightarrow> Inr (commit js (lf1\<lparr>cached := v\<rparr>) h s1)))"
proof (cases "ensure js lf s")
  case (Inl c)
  then show ?thesis by (simp add: Update_def Update_begin_def)
next
  case (Inr e)
  obtain lf1 s1 where e: "e = (lf1, s1)" by (cases e)
  obtain r s2 where o: "openOrCreate (path lf1) s1 = (r, s2)" by (cases "openOrCreate (path lf1) s1")
  show ?thesis
  proof (cases r)
    case (Inl err)
    with Inr e o show ?thesis by (simp add: Update_def Update_begin_def)
  next
    case h: (Inr h)
    show ?thesis
    proof (cases "loadIfUpdated js lf1 h s2")
      case (Inl c)
      with Inr e o h show ?thesis
        by (cases c) (simp add: Update_def Update_begin_def deferClose_def)
    next
      case l: (Inr t)
      obtain lf2 h1 s3 where t: "t = (lf2, h1, s3)" by (cases t)
      from Inr e o h l t show ?thesis
        by (simp add: Update_def Update_begin_def deferClose_def Close_def
            split: sum.splits prod.splits option.splits)
    qed
  qed
qed

lemma openOrCreate_fail:
  assumes "openOrCreate p s = (Inl err, s')"
  shows "fault s' = fault s \<and> now s' = now s \<and> files s' = files s"
  using openOrCreate_shape [where p=p and s=s] assms by simp

lemma same_disk_opened:
  "same_disk s s' \<Longrightarrow> opened_files p s' = opened_files p s"
  by (auto simp add: same_disk_def opened_files_def split: option.splits)

lemma Update_begin_post:
  assumes "Update_begin js lf s = Inr (Inr h, lf1, s1)"
  shows "h_path h = path lf \<and> same_setup lf lf1 \<and> fault s1 = fault s \<and> now s1 = now s
       \<and> fault s OpStat = None \<and> fault s OpOpenFile = None
       \<and> files s1 = opened_files (path lf) s
       \<and> (\<exists>n. files s1 (path lf) = Some n \<and> (content n = [] \<or> mtime n \<le> lastModTime lf1))
       \<and> (fault s OpOpen = None \<longrightarrow> h_off h = 0 \<and> (\<exists>se. ensure js lf s = Inr (lf1, se)))"
proof -
  from assms obtain lfe se where e: "ensure js lf s = Inr (lfe, se)"
    by (auto simp add: Update_begin_def split: sum.splits)
  from assms e obtain h0 s2 where o: "openOrCreate (path lfe) se = (Inr h0, s2)"
    by (auto simp add: Update_begin_def split: sum.splits prod.splits)
  from assms e o have l: "loadIfUpdated js lfe h0 s2 = Inr (lf1, h, s1)"
    by (auto simp add: Update_begin_def split: sum.splits prod.splits)
  have ef: "same_disk s se" "same_setup lf lfe" using ensure_frame [OF e] by simp_all
  then have p: "path lfe = path lf" by (simp add: same_setup_def)
  have op: "h0 = \<lparr>h_path = path lf, h_off = 0\<rparr>" "fault se OpOpenFile = None" "fault s2 = fault se"
      "now s2 = now se" "files s2 = opened_files (path lf) s"
    using openOrCreate_post [OF o] p same_disk_opened [OF ef(1)] by simp_all
  have lf: "same_disk s2 s1" "same_setup lfe lf1" "h_path h = h_path h0"
    using loadIfUpdated_frame [OF l] by simp_all
  have lp: "fault s2 OpStat = None"
      "\<exists>n. files s2 (h_path h0) = Some n \<and> (content n = [] \<or> mtime n \<le> lastModTime lf1)"
    using loadIfUpdated_post [OF l] by auto
  have su: "same_setup lf lf1" using ef(2) lf(2) by (simp add: same_setup_def)
  have idle: "h_off h = 0 \<and> (\<exists>se. ensure js lf s = Inr (lf1, se))" if "fault s OpOpen = None"
  proof -
    obtain n where n: "files s2 (path lf) = Some n" using lp(2) op(1) by auto
    have "content n = [] \<or> mtime n \<le> lastModTime lfe"
    proof (cases "files s (path lf)")
      case None
      with n op(5) show ?thesis by (auto simp add: opened_files_def)
    next
      case (Some m)
      with n op(5) have "m = n" by (simp add: opened_files_def)
      with Some ensure_post [OF e that] show ?thesis by simp
    qed
    with lp(1) n op(1) have "loadIfUpdated js lfe h0 s2 = Inr (lfe, h0, logs [Call CStat] s2)"
      by (intro loadIfUpdated_idle) simp_all
    with l e op(1) show ?thesis by simp
  qed
  show ?thesis
    using ef lf lp op su idle by (auto simp add: same_disk_def)
qed

lemma commit_ok:
  assumes "fault s OpTruncate = None" and "fault s OpWrite = None" and "fault s OpSync = None"
      and "fault s OpStat = None" and "files s (h_path h) = Some n"
      and "Encode js [] ''  '' (cached lf) = Inr bs"
  shows "commit js lf h s =
           (None, lf\<lparr>lastModTime := now s\<rparr>,
            logs [Call CTruncate, Call (CWrite bs), Call CSync, Call CStat]
              (s\<lparr>files := (files s)(h_path h \<mapsto>
                   \<lparr>content = replicate (h_off h) (CHR 0x00) @ bs, mtime = now s\<rparr>)\<rparr>))"
  using assms
  by (simp add: commit_def Truncate_def Write_def Sync_def Stat_def Let_def log_def)


lemma stream_start: "h_path h = path lf \<Longrightarrow> stream (h\<lparr>h_off := 0\<rparr>) s = on_disk lf s"
  by (simp add: stream_def on_disk_def split: option.splits)

lemma restored_upd [simp]:
  "restored js (lf\<lparr>cached := c\<rparr>) = restored js lf"
  "restored js (lf\<lparr>lastModTime := t\<rparr>) = restored js lf"
  by (simp_all add: restored_def fun_eq_iff Let_def)

lemma on_disk_logs [simp]: "on_disk lf (logs es s) = on_disk lf s"
  "on_disk (lf\<lparr>cached := c\<rparr>) s = on_disk lf s"
  by (simp_all add: on_disk_def)

lemma ensure_idle:
  assumes "fault s OpOpen = None" and "fault s OpStat = None" and "files s (path lf) = Some n"
      and "content n = [] \<or> mtime n \<le> lastModTime lf"
  shows "ensure js lf s = Inr (lf, logs [Call (COpen (path lf)), Call CStat, Call CClose] s)"
  using assms by (simp add: ensure_present loadIfUpdated_idle)

lemma ensure_reload:
  assumes "fault s OpOpen = None" and "fault s OpStat = None" and "fault s OpSeek = None"
      and "files s (path lf) = Some n" and "content n \<noteq> []" and "lastModTime lf < mtime n"
      and "restored js lf (content n) (cached lf) = Some r"
  shows "ensure js lf s =
           Inr (lf\<lparr>cached := observed lf r, lastModTime := mtime n\<rparr>,
                logs ([Call (COpen (path lf)), Call CStat, Call CSeek, Call CRead] @ fired lf r
                      @ [Call CClose]) s)"
proof -
  let ?h = "\<lparr>h_path = path lf, h_off = 0\<rparr>"
  let ?s = "logs [Call (COpen (path lf)), Call CStat] s"
  have st: "stream (?h\<lparr>h_off := 0\<rparr>) ?s = content n"
    using assms(4) by (simp add: stream_def)
  have "forceLoad js lf ?h ?s =
          Inr (lf\<lparr>cached := observed lf r\<rparr>,
               ?h\<lparr>h_off := min (d_read (decoding js (stream (?h\<lparr>h_off := 0\<rparr>) ?s) (cached lf)))
                                (length (stream (?h\<lparr>h_off := 0\<rparr>) ?s))\<rparr>,
               logs ([Call CSeek, Call CRead] @ fired lf r) ?s)"
    using assms(3,7) st by (intro forceLoad_loads) simp_all
  then show ?thesis
    using assms(1,2,4,5,6) by (simp add: ensure_present loadIfUpdated_reload)
qed

lemma Update_rolls_back:
  assumes "Update_begin js lf s = Inr (Inr h, lf1, s1)"
      and "f (cached lf1) = (v, Some err)"
      and "fault s OpSeek = None"
      and "restored js lf1 (on_disk lf s1) v = Some r"
  shows "Update js lf f s =
           Inr (Some err, lf1\<lparr>cached := observed lf1 r\<rparr>,
                logs ([Call CSeek, Call CRead] @ fired lf1 r @ [Call CClose]) s1)"
proof -
  have post: "h_path h = path lf" "fault s1 = fault s"
    using Update_begin_post [OF assms(1)] by simp_all
  let ?lf = "lf1\<lparr>cached := v\<rparr>"
  have "forceLoad js ?lf h s1 =
          Inr (?lf\<lparr>cached := observed ?lf r\<rparr>,
               h\<lparr>h_off := min (d_read (decoding js (stream (h\<lparr>h_off := 0\<rparr>) s1) (cached ?lf)))
                                (length (stream (h\<lparr>h_off := 0\<rparr>) s1))\<rparr>,
               logs ([Call CSeek, Call CRead] @ fired ?lf r) s1)"
    using assms(3,4) post by (intro forceLoad_loads) (simp_all add: stream_start)
  then show ?thesis
    using assms(1,2) by (simp add: Update_unfold deferClose_def Close_def log_def)
qed

lemma Peek_after_begin:
  assumes "Update_begin js lf s = Inr (Inr h, lf1, s1)" and "fault s OpOpen = None"
  shows "Peek js (lf1\<lparr>cached := c\<rparr>) (logs es s1) =
           Inr (c, lf1\<lparr>cached := c\<rparr>,
                logs (es @ [Call (COpen (path lf)), Call CStat, Call CClose]) s1)"
proof -
  from Update_begin_post [OF assms(1)] obtain n where
    p: "path lf1 = path lf" "fault s1 = fault s" "fault s OpStat = None"
       "files s1 (path lf) = Some n" "content n = [] \<or> mtime n \<le> lastModTime lf1"
    by (auto simp add: same_setup_def)
  have "ensure js (lf1\<lparr>cached := c\<rparr>) (logs es s1) =
          Inr (lf1\<lparr>cached := c\<rparr>,
               logs [Call (COpen (path (lf1\<lparr>cached := c\<rparr>))), Call CStat, Call CClose] (logs es s1))"
    using p assms(2) by (intro ensure_idle [where n=n]) simp_all
  then show ?thesis using p(1) by (simp add: Peek_def)
qed

lemma Update_begin_absent:
  assumes "files s (path lf) = None" and "fault s OpOpenFile = None" and "fault s OpMkdirAll = None"
      and "fault s OpStat = None"
  shows "Update_begin js lf s =
           Inr (Inr \<lparr>h_path = path lf, h_off = 0\<rparr>, lf,
                logs ([Call (COpen (path lf))] @ open_calls (path lf) s @ [Call CStat])
                  (s\<lparr>files := (files s)(path lf \<mapsto> \<lparr>content = [], mtime = now s\<rparr>),
                     dirs := opened_dirs (path lf) s\<rparr>))"
proof -
  let ?s1 = "logs [Call (COpen (path lf))] s"
  let ?s2 = "logs (open_calls (path lf) ?s1)
               (?s1\<lparr>files := opened_files (path lf) ?s1, dirs := opened_dirs (path lf) ?s1\<rparr>)"
  let ?h = "\<lparr>h_path = path lf, h_off = 0\<rparr>"
  have o: "openOrCreate (path lf) ?s1 = (Inr ?h, ?s2)"
    using assms(2,3) by (intro openOrCreate_ok) simp_all
  have f2: "files ?s2 (h_path ?h) = Some \<lparr>content = [], mtime = now s\<rparr>"
    using assms(1) by (simp add: opened_files_def)
  have l: "loadIfUpdated js lf ?h ?s2 = Inr (lf, ?h, logs [Call CStat] ?s2)"
    by (rule loadIfUpdated_idle [OF _ f2]) (simp_all add: assms(4))
  have eq: "opened_files (path lf) ?s1 = (files s)(path lf \<mapsto> \<lparr>content = [], mtime = now s\<rparr>)"
    "opened_dirs (path lf) ?s1 = opened_dirs (path lf) s" "open_calls (path lf) ?s1 = open_calls (path lf) s"
    using assms(1) by (simp_all add: opened_files_def opened_dirs_def open_calls_def dir_exists_def)
  show ?thesis
    using assms(1) o l eq by (simp add: Update_begin_def ensure_absent)
qed

lemma Update_commits:
  assumes "Update_begin js lf s = Inr (Inr h, lf1, s1)"
      and "f (cached lf1) = (v, None)"
      and "Encode js [] ''  '' v = Inr bs"
      and "fault s OpOpen = None" and "fault s OpTruncate = None"
      and "fault s OpWrite = None" and "fault s OpSync = None"
  shows "Update js lf f s =
           Inr (None, lf1\<lparr>cached := v, lastModTime := now s\<rparr>,
                logs [Call CTruncate, Call (CWrite bs), Call CSync, Call CStat, Call CClose]
                  (s1\<lparr>files := (files s1)(path lf \<mapsto> \<lparr>content = bs, mtime = now s\<rparr>)\<rparr>))"
proof -
  from Update_begin_post [OF assms(1)] assms(4) obtain n where
    p: "h_path h = path lf" "fault s1 = fault s" "now s1 = now s" "fault s OpStat = None"
       "files s1 (path lf) = Some n" "h_off h = 0"
    by auto
  let ?lf = "lf1\<lparr>cached := v\<rparr>"
  have "commit js ?lf h s1 =
          (None, ?lf\<lparr>lastModTime := now s1\<rparr>,
           logs [Call CTruncate, Call (CWrite bs), Call CSync, Call CStat]
             (s1\<lparr>files := (files s1)(h_path h \<mapsto>
                  \<lparr>content = replicate (h_off h) (CHR 0x00) @ bs, mtime = now s1\<rparr>)\<rparr>))"
    using assms(3,5,6,7) p by (intro commit_ok [where n=n]) simp_all
  then show ?thesis
    using assms(1,2) p by (simp add: Update_unfold deferClose_def Close_def log_def)
qed



lemma Update_begin_stamps:
  assumes "Update_begin js lf s = Inr (x, lf1, s1)" and "stamps_ok (lf, s)"
  shows "lastModTime lf \<le> lastModTime lf1 \<and> stamps_ok (lf1, s1) \<and> now s1 = now s
       \<and> path lf1 = path lf"
proof -
  from assms(1) obtain lfe se where e: "ensure js lf s = Inr (lfe, se)"
    by (auto simp add: Update_begin_def split: sum.splits)
  have es: "same_disk s se" "path lfe = path lf"
      "lastModTime lfe = lastModTime lf
       \<or> (\<exists>n. files s (path lf) = Some n \<and> lastModTime lf < mtime n \<and> lastModTime lfe = mtime n)"
    using ensure_shape [where js=js and lf=lf and s=s] e by (simp_all add: same_setup_def)
  have e1: "lastModTime lf \<le> lastModTime lfe" "lastModTime lfe \<le> now s"
    using es(3) assms(2) by (auto simp add: stamps_ok_def)
  obtain r s2 where o: "openOrCreate (path lfe) se = (r, s2)" by (cases "openOrCreate (path lfe) se")
  show ?thesis
  proof (cases r)
    case (Inl err)
    with assms(1) e o have "lf1 = lfe" "s1 = s2" by (simp_all add: Update_begin_def)
    moreover have "now s2 = now se" "files s2 = files se"
      using openOrCreate_fail [of "path lfe" se err s2] o Inl by simp_all
    ultimately show ?thesis
      using e1 es assms(2) by (auto simp add: stamps_ok_def same_disk_def split: option.splits)
  next
    case (Inr h0)
    with assms(1) e o obtain h where l: "loadIfUpdated js lfe h0 s2 = Inr (lf1, h, s1)"
      by (auto simp add: Update_begin_def split: sum.splits prod.splits)
    have op: "h0 = \<lparr>h_path = path lf, h_off = 0\<rparr>" "now s2 = now s" "files s2 = opened_files (path lf) s"
      using openOrCreate_post [of "path lfe" se h0 s2] o Inr es(1,2) same_disk_opened [OF es(1)]
      by (simp_all add: same_disk_def)
    from loadIfUpdated_shape [where js=js and lf=lfe and h=h0 and s=s2] l obtain n where
      ls: "same_disk s2 s1" "path lf1 = path lfe" "files s2 (h_path h0) = Some n"
          "lastModTime lf1 = lastModTime lfe \<or> (lastModTime lfe < mtime n \<and> lastModTime lf1 = mtime n)"
      by (auto simp add: same_setup_def)
    have nn: "mtime n \<le> now s"
      using ls(3) op assms(2) by (auto simp add: opened_files_def stamps_ok_def split: option.splits)
    show ?thesis
      using e1 es(2) ls op nn by (auto simp add: stamps_ok_def same_disk_def split: option.splits)
  qed
qed

lemma commit_stamps:
  assumes "commit js lf h s = (r, lf', s')" and "stamps_ok (lf, s)" and "h_path h = path lf"
  shows "lastModTime lf \<le> lastModTime lf' \<and> stamps_ok (lf', s')"
  using assms
  by (auto simp add: commit_def Truncate_def Write_def Sync_def Stat_def Let_def log_def logs_def
      stamps_ok_def split: option.splits sum.splits if_splits)

lemma ensure_stamps:
  assumes "ensure js lf s = Inr (lf', s')" and "stamps_ok (lf, s)"
  shows "lastModTime lf \<le> lastModTime lf' \<and> stamps_ok (lf', s') \<and> path lf' = path lf"
  using ensure_shape [where js=js and lf=lf and s=s] assms
  by (auto simp add: stamps_ok_def same_disk_def same_setup_def split: option.splits)

lemma Update_stamps:
  assumes "Update js lf f s = Inr (r, lf', s')" and "stamps_ok (lf, s)"
  shows "lastModTime lf \<le> lastModTime lf' \<and> stamps_ok (lf', s')"
proof (cases "Update_begin js lf s")
  case (Inl c)
  with assms show ?thesis by (simp add: Update_unfold)
next
  case (Inr t)
  obtain x lf1 s1 where t: "t = (x, lf1, s1)" by (cases t)
  have b: "lastModTime lf \<le> lastModTime lf1" "stamps_ok (lf1, s1)" "path lf1 = path lf"
    using Update_begin_stamps [of js lf s x lf1 s1] Inr t assms(2) by simp_all
  show ?thesis
  proof (cases x)
    case (Inl err)
    with assms Inr t b show ?thesis by (simp add: Update_unfold)
  next
    case h: (Inr h)
    have hp: "h_path h = path lf" using Update_begin_post [of js lf s h lf1 s1] Inr t h by simp
    obtain v e where f: "f (cached lf1) = (v, e)" by (cases "f (cached lf1)")
    have bv: "stamps_ok (lf1\<lparr>cached := v\<rparr>, s1)" using b(2) by (simp add: stamps_ok_def)
    show ?thesis
    proof (cases e)
      case (Some err)
      with assms(1) Inr t h f obtain h2 s4 where
        fl: "forceLoad js (lf1\<lparr>cached := v\<rparr>) h s1 = Inr (lf', h2, s4)" and s': "s' = logs [Call CClose] s4"
        by (auto simp add: Update_unfold deferClose_def Close_def log_def split: sum.splits prod.splits)
      from forceLoad_frame [OF fl] b s' show ?thesis
        by (auto simp add: stamps_ok_def same_disk_def same_setup_def split: option.splits)
    next
      case None
      obtain r' s'' where c: "commit js (lf1\<lparr>cached := v\<rparr>) h s1 = (r', lf', s'')" and s': "s' = logs [Call CClose] s''"
        using assms(1) Inr t h f None
        by (cases "commit js (lf1\<lparr>cached := v\<rparr>) h s1")
           (auto simp add: Update_unfold deferClose_def Close_def log_def)
      from commit_stamps [OF c bv] hp b s' show ?thesis
        by (auto simp add: stamps_ok_def split: option.splits)
    qed
  qed
qed

lemma step_stamps:
  assumes "step js st (lf, s) = Inr (out, lf', s')" and "stamps_ok (lf, s)"
  shows "lastModTime lf \<le> lastModTime lf' \<and> stamps_ok (lf', s')"
proof (cases st)
  case (DoView f)
  with assms(1) obtain lfe where e: "ensure js lf s = Inr (lfe, s')" and l: "lf' = lfe\<lparr>cached := f (cached lfe)\<rparr>"
    by (auto simp add: step_def View_def split: sum.splits prod.splits)
  from ensure_stamps [OF e assms(2)] l show ?thesis
    by (auto simp add: stamps_ok_def split: option.splits)
next
  case DoPeek
  with assms(1) have e: "ensure js lf s = Inr (lf', s')"
    by (auto simp add: step_def Peek_def split: sum.splits prod.splits)
  from ensure_stamps [OF e assms(2)] show ?thesis by simp
next
  case (DoUpdate f)
  with assms(1) obtain r where u: "Update js lf f s = Inr (r, lf', s')"
    by (auto simp add: step_def split: sum.splits prod.splits)
  from Update_stamps [OF u assms(2)] show ?thesis .
next
  case (ExtWrite bs)
  with assms show ?thesis by (auto simp add: step_def stamps_ok_def)
next
  case ExtRemove
  with assms show ?thesis by (auto simp add: step_def stamps_ok_def)
next
  case (Tick k)
  with assms show ?thesis by (auto simp add: step_def stamps_ok_def split: option.splits)
qed

lemma openOrCreate_dir:
  assumes "files s p = None" and "openOrCreate p s = (Inr h, s')"
  shows "dir_exists s' (Dir p)"
  using assms self_in_ancestors [of "Dir p"]
  by (auto simp add: openOrCreate_def OpenFile_def MkdirAll_def Let_def log_def dir_exists_def
      split: option.splits if_splits)

lemma Update_begin_dir:
  assumes "files s (path lf) = None" and "Update_begin js lf s = Inr (Inr h, lf1, s1)"
  shows "dir_exists s1 (Dir (path lf))"
proof -
  from assms(2) obtain lfe se where e: "ensure js lf s = Inr (lfe, se)"
    by (auto simp add: Update_begin_def split: sum.splits)
  from assms(2) e obtain h0 s2 where o: "openOrCreate (path lfe) se = (Inr h0, s2)"
    by (auto simp add: Update_begin_def split: sum.splits prod.splits)
  from assms(2) e o have l: "loadIfUpdated js lfe h0 s2 = Inr (lf1, h, s1)"
    by (auto simp add: Update_begin_def split: sum.splits prod.splits)
  have ef: "files se = files s" "path lfe = path lf"
    using ensure_frame [OF e] by (simp_all add: same_disk_def same_setup_def)
  have "dir_exists s2 (Dir (path lf))"
    using openOrCreate_dir [of se "path lf" h0 s2] o ef assms(1) by simp
  moreover have "dirs s1 = dirs s2" using loadIfUpdated_frame [OF l] by (simp add: same_disk_def)
  ultimately show ?thesis by (simp add: dir_exists_def)
qed

lemma Update_failing:
  assumes "Update_begin js lf s = Inr (Inr h, lf1, s1)" and "f (cached lf1) = (v, Some err)"
  shows "same_disk s1 (final_sys (Update js lf f s))
       \<and> (\<forall>r lf' s'. Update js lf f s = Inr (r, lf', s') \<longrightarrow> r = Some err)"
  using assms forceLoad_shape [where js=js and lf="lf1\<lparr>cached := v\<rparr>" and h=h and s=s1]
  by (auto simp add: Update_unfold deferClose_def Close_def log_def final_sys_def
      split: sum.splits prod.splits)

lemma New_fields:
  "New zero B P [WithDefault (Some (\<lambda>_. V)), WithErrorHandler eh, WithLoadedCallback cb] =
     \<lparr>path = (if \<not> IsAbs P \<and> B \<noteq> Path False [] then Join B P else P), lastModTime = 0,
      cached = V, defaultFunc = Some (\<lambda>_. V), errHandler = eh, onLoaded = cb\<rparr>"
  by (simp add: New_def WithDefault_def WithErrorHandler_def WithLoadedCallback_def Let_def)

subsection \<open>The concrete instance\<close>

lemma ctl0_fields:
  "ctl0 = \<lparr>path = testFilePath, lastModTime = 0, cached = False, defaultFunc = Some (\<lambda>_. False),
           errHandler = DefaultErrorHandler, onLoaded = None\<rparr>"
  by (simp add: ctl0_def New_fields testFilePath_def)

lemma ctl_watch_fields:
  "ctl_watch = \<lparr>path = testFilePath, lastModTime = 0, cached = False, defaultFunc = Some (\<lambda>_. False),
           errHandler = DefaultErrorHandler, onLoaded = Some (\<lambda>v. v)\<rparr>"
  by (simp add: ctl_watch_def New_fields testFilePath_def)

lemma ctl_resume_fields:
  "ctl_resume = \<lparr>path = testFilePath, lastModTime = 0, cached = False, defaultFunc = Some (\<lambda>_. False),
           errHandler = (\<lambda>err. Returns), onLoaded = None\<rparr>"
  by (simp add: ctl_resume_def New_fields testFilePath_def)

lemma opened0:
  "open_calls testFilePath disk0 =
     [Call (COpenFile testFilePath), Call (CMkdirAll (Path True [''tmp''])), Call (COpenFile testFilePath)]"
  "opened_dirs testFilePath disk0 = {Path True [], Path True [''tmp'']}"
  by (auto simp add: open_calls_def opened_dirs_def disk0_def testFilePath_def dir_exists_def Dir_def
      ancestors_def upt_rec)

lemma begin0:
  assumes "path lf = testFilePath"
  shows "Update_begin bool_json lf disk0 = Inr (Inr handle0, lf, disk0_opened)"
proof -
  have "Update_begin bool_json lf disk0 =
           Inr (Inr \<lparr>h_path = path lf, h_off = 0\<rparr>, lf,
                logs ([Call (COpen (path lf))] @ open_calls (path lf) disk0 @ [Call CStat])
                  (disk0\<lparr>files := (files disk0)(path lf \<mapsto> \<lparr>content = [], mtime = now disk0\<rparr>),
                     dirs := opened_dirs (path lf) disk0\<rparr>))"
    by (rule Update_begin_absent) (simp_all add: disk0_def)
  then show ?thesis
    using assms by (simp add: opened0 handle0_def disk0_opened_def) (simp add: disk0_def)
qed

lemma restored_bool:
  "restored bool_json ctl0 [] v = Some False"
  "restored bool_json ctl_watch [] v = Some False"
  "restored bool_json ctl0 (''true'' @ [CHR 0x0A]) v = Some True"
  by (simp_all add: restored_def decoding_def bool_json_def ctl0_fields ctl_watch_fields is_space_def)

lemma run_example_modTimes:
  "modTimes (run bool_json [DoUpdate setTrue, Tick 1, ExtWrite ''false'', DoPeek] (ctl0, disk0))
     = [5, 5, 5, 6]"
  by code_simp

subsection \<open>Construction and reading\<close>

text \<open>
  C3. A controller is constructed over a path with a default provider that returns \<open>V\<close>
  (any error handler, any loaded callback: passing \<^verbatim>\<open>DefaultErrorHandler\<close> or no
  callback is the same as leaving the option out), and its file does not exist.
  Construction is a function of the path and the options alone, so it does no file I/O.
  The snapshot \<^verbatim>\<open>Peek\<close> then returns \<open>V\<close>, and \<^verbatim>\<open>Peek\<close> and
  \<^verbatim>\<open>View\<close> each make one call of the file system, the read-only \<^verbatim>\<open>Open\<close>:
  the files are what they were, so the file is not created.
\<close>

theorem New_Peek_View_without_file:
  assumes "lf = New zero B P [WithDefault (Some (\<lambda>_. V)), WithErrorHandler eh, WithLoadedCallback cb]"
      and "files s (path lf) = None"
  shows "cached lf = V
       \<and> Peek js lf s = Inr (V, lf, logs [Call (COpen (path lf))] s)
       \<and> View js lf f s = Inr (lf\<lparr>cached := f V\<rparr>, logs [Call (COpen (path lf))] s)
       \<and> files (logs [Call (COpen (path lf))] s) (path lf) = None"
proof -
  have c: "cached lf = V" using assms(1) by (simp add: New_fields)
  have e: "ensure js lf s = Inr (lf, logs [Call (COpen (path lf))] s)"
    using assms(2) by (rule ensure_absent)
  show ?thesis using c e assms(2) by (simp add: Peek_def View_def)
qed

theorem New_Peek_View_without_file_witness:
  "files disk0 (path ctl0) = None
   \<and> cached ctl0 = False
   \<and> Peek bool_json ctl0 disk0 = Inr (False, ctl0, logs [Call (COpen (path ctl0))] disk0)
   \<and> View bool_json ctl0 Not disk0 = Inr (ctl0\<lparr>cached := True\<rparr>, logs [Call (COpen (path ctl0))] disk0)
   \<and> files (logs [Call (COpen (path ctl0))] disk0) (path ctl0) = None"
proof -
  have a: "files disk0 (path ctl0) = None" by (simp add: disk0_def)
  show ?thesis
    using a New_Peek_View_without_file [OF ctl0_def a, of bool_json Not] by simp
qed

text \<open>
  C4. The freshness check \<^verbatim>\<open>ensure\<close>, when \<^verbatim>\<open>Open\<close> and \<^verbatim>\<open>Stat\<close> do not
  fail. If the file does not exist, the controller is unchanged and nothing is reported.
  If the file exists with size zero, nothing is loaded and the controller is unchanged. If
  the file is not empty and its modification time is strictly after the last-known one
  (and the rewinding does not fail and the contents decode), the contents of the file
  are decoded into the cached value, the value is handed to the loaded callback, and the
  last-known modification time becomes the file's. Otherwise the controller is unchanged.
  In no case is an error reported or a file changed: the world differs by the trace of
  the calls only.
\<close>

theorem ensure_cases:
  assumes "fault s OpOpen = None" and "fault s OpStat = None"
  shows "(files s (path lf) = None \<longrightarrow>
            ensure js lf s = Inr (lf, logs [Call (COpen (path lf))] s))
       \<and> (\<forall>n. files s (path lf) = Some n \<and> content n = [] \<longrightarrow>
            ensure js lf s = Inr (lf, logs [Call (COpen (path lf)), Call CStat, Call CClose] s))
       \<and> (\<forall>n r. files s (path lf) = Some n \<and> content n \<noteq> [] \<and> lastModTime lf < mtime n
                 \<and> fault s OpSeek = None \<and> restored js lf (content n) (cached lf) = Some r \<longrightarrow>
            ensure js lf s =
              Inr (lf\<lparr>cached := observed lf r, lastModTime := mtime n\<rparr>,
                   logs ([Call (COpen (path lf)), Call CStat, Call CSeek, Call CRead] @ fired lf r
                         @ [Call CClose]) s))
       \<and> (\<forall>n. files s (path lf) = Some n \<and> content n \<noteq> [] \<and> mtime n \<le> lastModTime lf \<longrightarrow>
            ensure js lf s = Inr (lf, logs [Call (COpen (path lf)), Call CStat, Call CClose] s))"
  using assms ensure_absent [of s lf js] ensure_idle [of s lf _ js] ensure_reload [of s lf _ js]
  by blast

theorem ensure_cases_witness:
  "ensure bool_json ctl0 disk0 = Inr (ctl0, logs [Call (COpen testFilePath)] disk0)
   \<and> ensure bool_json ctl_true disk_empty =
       Inr (ctl_true, logs [Call (COpen testFilePath), Call CStat, Call CClose] disk_empty)
   \<and> ensure bool_json ctl0 disk_true =
       Inr (ctl0\<lparr>cached := True, lastModTime := 7\<rparr>,
            logs [Call (COpen testFilePath), Call CStat, Call CSeek, Call CRead, Call CClose] disk_true)
   \<and> ensure bool_json ctl_seen disk_true =
       Inr (ctl_seen, logs [Call (COpen testFilePath), Call CStat, Call CClose] disk_true)"
proof -
  have 1: "ensure bool_json ctl0 disk0 = Inr (ctl0, logs [Call (COpen testFilePath)] disk0)"
    using ensure_cases [of disk0 ctl0 bool_json] by (simp add: disk0_def ctl0_fields)
  have 2: "ensure bool_json ctl_true disk_empty =
       Inr (ctl_true, logs [Call (COpen testFilePath), Call CStat, Call CClose] disk_empty)"
    using ensure_cases [of disk_empty ctl_true bool_json]
    by (simp add: disk_empty_def disk_true_def ctl_true_def ctl0_fields)
  have 3: "ensure bool_json ctl0 disk_true =
       Inr (ctl0\<lparr>cached := True, lastModTime := 7\<rparr>,
            logs [Call (COpen testFilePath), Call CStat, Call CSeek, Call CRead, Call CClose] disk_true)"
    using ensure_cases [of disk_true ctl0 bool_json, THEN conjunct2, THEN conjunct2, THEN conjunct1,
        rule_format, of "\<lparr>content = ''true'' @ [CHR 0x0A], mtime = 7\<rparr>" True]
      restored_bool(3) [of False]
    by (simp add: disk_true_def) (simp add: ctl0_fields observed_def fired_def)
  have 4: "ensure bool_json ctl_seen disk_true =
       Inr (ctl_seen, logs [Call (COpen testFilePath), Call CStat, Call CClose] disk_true)"
    using ensure_cases [of disk_true ctl_seen bool_json]
    by (simp add: disk_true_def ctl_seen_def ctl0_fields)
  show ?thesis using 1 2 3 4 by simp
qed

text \<open>
  C5. A reload in which the decoder reports \<^verbatim>\<open>io.EOF\<close> at input offset zero, the
  rewinding before it not having ended in a panic: the cached value becomes the default
  (handed to the loaded callback like every loaded value), \<^verbatim>\<open>forceLoad\<close> returns,
  and the trace has no report of a decoding error: after the \<^verbatim>\<open>Seek\<close> (and the
  report of its failure, if it failed) come the read and the call of the callback.
\<close>

theorem forceLoad_end_of_input:
  assumes "case fault s OpSeek of None \<Rightarrow> True
           | Some e \<Rightarrow> errHandler lf (Wrapf ''failed to rewind file'' e) = Returns"
      and "h' = (case fault s OpSeek of None \<Rightarrow> h\<lparr>h_off := 0\<rparr> | Some e \<Rightarrow> h)"
      and "d = decoding js (stream h' s) (cached lf)"
      and "d_err d = Some EOF" and "d_off d = 0"
      and "defaultFunc lf = Some dflt"
  shows "forceLoad js lf h s =
           Inr (lf\<lparr>cached := observed lf (dflt ())\<rparr>,
                h'\<lparr>h_off := h_off h' + min (d_read d) (length (stream h' s))\<rparr>,
                logs ([Call CSeek]
                      @ (case fault s OpSeek of None \<Rightarrow> []
                         | Some e \<Rightarrow> [Reported (Wrapf ''failed to rewind file'' e)])
                      @ [Call CRead] @ fired lf (dflt ())) s)"
  using assms
  by (simp add: forceLoad_def Seek_def decodeFrom_def Let_def log_def fireLoaded_eq callErrHandler_def
      split: option.splits)

theorem forceLoad_end_of_input_witness:
  "d_err (decoding bool_json (stream handle0 disk_blank) (cached ctl_true)) = Some EOF
   \<and> d_off (decoding bool_json (stream handle0 disk_blank) (cached ctl_true)) = 0
   \<and> forceLoad bool_json ctl_true handle0 disk_blank =
       Inr (ctl_true\<lparr>cached := False\<rparr>, handle0\<lparr>h_off := 1\<rparr>, logs [Call CSeek, Call CRead] disk_blank)"
proof -
  have st: "stream handle0 disk_blank = [CHR 0x0A]"
    by (simp add: stream_def handle0_def disk_blank_def disk_true_def)
  have d: "decoding bool_json [CHR 0x0A] (cached ctl_true) =
             \<lparr>d_err = Some EOF, d_val = True, d_off = 0, d_read = 1\<rparr>"
    by (simp add: decoding_def bool_json_def is_space_def ctl_true_def ctl0_fields)
  have sk: "fault disk_blank OpSeek = None" by (simp add: disk_blank_def disk_true_def)
  have rw: "case fault disk_blank OpSeek of None \<Rightarrow> True
            | Some e \<Rightarrow> errHandler ctl_true (Wrapf ''failed to rewind file'' e) = Returns"
    by (simp add: sk)
  have hh: "handle0 = (case fault disk_blank OpSeek of None \<Rightarrow> handle0\<lparr>h_off := 0\<rparr> | Some e \<Rightarrow> handle0)"
    by (simp add: sk handle0_def)
  have de: "d_err (decoding bool_json (stream handle0 disk_blank) (cached ctl_true)) = Some EOF"
    and dz: "d_off (decoding bool_json (stream handle0 disk_blank) (cached ctl_true)) = 0"
    by (simp_all add: st d)
  have df: "defaultFunc ctl_true = Some (\<lambda>_. False)" by (simp add: ctl_true_def ctl0_fields)
  have ob: "observed ctl_true False = False" "fired ctl_true False = []"
    by (simp_all add: observed_def fired_def ctl_true_def ctl0_fields)
  show ?thesis
    using forceLoad_end_of_input [OF rw hh refl de dz df] de dz
    by (simp add: ob sk d st) (simp add: handle0_def)
qed

text \<open>
  When \<^verbatim>\<open>Stat\<close> fails, \<^verbatim>\<open>loadIfUpdated\<close> does not return, whatever
  the error handler does: the handler panics, or it returns and the nil \<^verbatim>\<open>FileInfo\<close>
  is dereferenced.
\<close>

lemma stat_failure_never_returns:
  assumes "fault s OpStat = Some e"
  shows "\<exists>p s'. loadIfUpdated js lf h s = Inl (p, s')"
  using assms
  by (simp add: loadIfUpdated_def Stat_def Let_def callErrHandler_def split: verdict.splits)

text \<open>
  C6. An error handler that returns does not make the operation go on after a failed
  \<^verbatim>\<open>Stat\<close>. The file exists, \<^verbatim>\<open>Stat\<close> fails on it, and the controller has an
  error handler that returns: the snapshot \<^verbatim>\<open>Peek\<close> opens the file, calls
  \<^verbatim>\<open>Stat\<close>, reports the error to the handler, and ends in the runtime panic of
  \<^verbatim>\<open>stat.Size()\<close> on a nil \<^verbatim>\<open>FileInfo\<close>.
\<close>

theorem resumed_stat_failure_panics:
  "panic_of (Peek bool_json ctl_resume disk_stat_fails) = Some NilPointerDereference
   \<and> trace (final_sys (Peek bool_json ctl_resume disk_stat_fails)) =
       [Call (COpen testFilePath), Call CStat,
        Reported (Wrapf ''stat failed'' (Err ''input/output error''))]"
  by code_simp

text \<open>
  An update after a failed read-only \<^verbatim>\<open>Open\<close> that the error handler lets pass.
  The freshness check has loaded nothing, so the second check, on the handle of the
  update, loads the file and leaves the offset of the handle behind what the decoder
  read. \<^verbatim>\<open>Truncate\<close> does not move the offset and \<^verbatim>\<open>Update\<close> does not seek:
  the encoding is written there, the update returns nil, and the file holds five zero
  bytes before the JSON text.
\<close>

lemma resumed_open_failure_writes_past_start:
  "returned (Update bool_json ctl_resume setTrue disk_open_fails) = Some None
   \<and> on_disk ctl_resume (final_sys (Update bool_json ctl_resume setTrue disk_open_fails))
       = replicate 5 (CHR 0x00) @ ''true'' @ [CHR 0x0A]"
  by code_simp

subsection \<open>Updating\<close>

text \<open>
  C2. A successful update does not always encode the value from offset zero of the file.
  \<^verbatim>\<open>Update\<close> truncates the file to zero length and encodes the value on the handle
  where the handle stands: \<^verbatim>\<open>Truncate\<close> does not move the offset, and
  \<^verbatim>\<open>Update\<close> does not seek. The controller has the default error handler and has
  loaded nothing yet; the file, holding \<^verbatim>\<open>true\<close>, appears after the read-only
  \<^verbatim>\<open>Open\<close> of the freshness check and before the \<^verbatim>\<open>OpenFile\<close> of the
  update. The second freshness check, on the handle of the update, loads the file and
  leaves the offset after the five bytes the decoder read. The update returns nil, nothing
  is reported to the error handler, the calls are \<^verbatim>\<open>Truncate\<close>,
  \<^verbatim>\<open>Write\<close>, \<^verbatim>\<open>Sync\<close>, \<^verbatim>\<open>Stat\<close>, \<^verbatim>\<open>Close\<close>, and the
  file holds five zero bytes before the JSON text.
\<close>

theorem Update_writes_behind_reload:
  "returned (Update bool_json ctl0 setTrue disk_appears) = Some None
   \<and> trace (final_sys (Update bool_json ctl0 setTrue disk_appears)) =
       [Call (COpen testFilePath), Call (COpenFile testFilePath), Call CStat, Call CSeek,
        Call CRead, Call CTruncate, Call (CWrite (''true'' @ [CHR 0x0A])), Call CSync,
        Call CStat, Call CClose]
   \<and> on_disk ctl0 (final_sys (Update bool_json ctl0 setTrue disk_appears))
       = replicate 5 (CHR 0x00) @ ''true'' @ [CHR 0x0A]"
  by code_simp

text \<open>
  A controller constructed anew over the file that this update has left, which is now
  there for every call, cannot load it: the zero bytes are not JSON, the error is
  reported, and the default error handler panics.
\<close>

lemma Update_behind_reload_unreadable:
  "panic_of (Peek bool_json ctl0
      ((final_sys (Update bool_json ctl0 setTrue disk_appears))\<lparr>fault := (\<lambda>_. None)\<rparr>))
     = Some (PanicError (Wrapf ''invalid JSON'' (Err ''invalid character'')))"
  by code_simp

text \<open>
  In general the encoding is written at the offset of the handle that the update function
  was reached with, after as many zero bytes: the file holds the encoding alone exactly
  when that offset is zero.
\<close>

lemma Update_writes_at_offset:
  assumes "Update_begin js lf s = Inr (Inr h, lf1, s1)"
      and "f (cached lf1) = (v, None)"
      and "Encode js [] ''  '' v = Inr bs"
      and "fault s OpTruncate = None" and "fault s OpWrite = None" and "fault s OpSync = None"
  shows "on_disk lf (final_sys (Update js lf f s)) = replicate (h_off h) (CHR 0x00) @ bs"
proof -
  from Update_begin_post [OF assms(1)] obtain n where
    p: "h_path h = path lf" "fault s1 = fault s" "now s1 = now s" "fault s OpStat = None"
       "files s1 (path lf) = Some n"
    by auto
  let ?lf = "lf1\<lparr>cached := v\<rparr>"
  let ?s = "s1\<lparr>files := (files s1)(h_path h \<mapsto>
                  \<lparr>content = replicate (h_off h) (CHR 0x00) @ bs, mtime = now s1\<rparr>)\<rparr>"
  have "commit js ?lf h s1 =
          (None, ?lf\<lparr>lastModTime := now s1\<rparr>,
           logs [Call CTruncate, Call (CWrite bs), Call CSync, Call CStat] ?s)"
    using assms(3,4,5,6) p by (intro commit_ok [where n=n]) simp_all
  then have "Update js lf f s =
          Inr (None, ?lf\<lparr>lastModTime := now s1\<rparr>,
               logs [Call CTruncate, Call (CWrite bs), Call CSync, Call CStat, Call CClose] ?s)"
    using assms(1,2) by (simp add: Update_unfold deferClose_def Close_def log_def)
  then show ?thesis
    using p(1) by (simp add: final_sys_def on_disk_def)
qed

text \<open>
  The offset is zero when the read-only \<^verbatim>\<open>Open\<close> of the freshness check did not
  fail, the second check then finding nothing to load. The file then holds exactly the
  encoding of the new cached value, made with the indent of two spaces, the calls are
  \<^verbatim>\<open>Truncate\<close>, \<^verbatim>\<open>Write\<close>, \<^verbatim>\<open>Sync\<close>, \<^verbatim>\<open>Stat\<close>,
  \<^verbatim>\<open>Close\<close> in this order, the last-known modification time is the one the write
  stamped on the file, and \<^verbatim>\<open>Update\<close> returns nil. So it is for the first update
  over a path with no file.
\<close>

lemma Update_on_new_file:
  "Update_begin bool_json ctl0 disk0 = Inr (Inr handle0, ctl0, disk0_opened)
   \<and> Update bool_json ctl0 setTrue disk0 =
       Inr (None, ctl0\<lparr>cached := True, lastModTime := 5\<rparr>, disk0_written)"
proof -
  have b: "Update_begin bool_json ctl0 disk0 = Inr (Inr handle0, ctl0, disk0_opened)"
    by (rule begin0) (simp add: ctl0_fields)
  have f: "setTrue (cached ctl0) = (True, None)" by (simp add: setTrue_def)
  have e: "Encode bool_json [] ''  '' True = Inr (''true'' @ [CHR 0x0A])"
    by (simp add: Encode_def bool_json_def)
  have fl: "fault disk0 OpOpen = None" "fault disk0 OpTruncate = None" "fault disk0 OpWrite = None"
    "fault disk0 OpSync = None" by (simp_all add: disk0_def)
  show ?thesis
    using b Update_commits [where f=setTrue, OF b f e fl]
    by (simp add: disk0_written_def ctl0_fields disk0_opened_def) (simp add: disk0_def)
qed

text \<open>
  C9. An update over a path with no file that gets as far as calling the update function
  (so the opening has succeeded), and whose function returns a failure. Whether the
  rollback then returns or ends in a panic, the world the update leaves has an empty file
  at the path, stamped with the time of the update, and the directory of the file:
  \<^verbatim>\<open>OpenFile\<close> created the file, after \<^verbatim>\<open>MkdirAll\<close> when the directory was
  missing, and nothing was written to it. An update that returns, returns the failure.
\<close>

theorem failed_Update_creates_file:
  assumes "files s (path lf) = None"
      and "Update_begin js lf s = Inr (Inr h, lf1, s1)"
      and "f (cached lf1) = (v, Some err)"
      and "s' = final_sys (Update js lf f s)"
  shows "files s' (path lf) = Some \<lparr>content = [], mtime = now s\<rparr>
       \<and> dir_exists s' (Dir (path lf))
       \<and> (\<forall>r lf' s''. Update js lf f s = Inr (r, lf', s'') \<longrightarrow> r = Some err)"
proof -
  have a: "files s1 = opened_files (path lf) s" using Update_begin_post [OF assms(2)] by simp
  have d: "dir_exists s1 (Dir (path lf))" using Update_begin_dir [OF assms(1,2)] .
  have u: "same_disk s1 s'" "\<forall>r lf' s''. Update js lf f s = Inr (r, lf', s'') \<longrightarrow> r = Some err"
    using Update_failing [where f=f, OF assms(2,3)] assms(4) by simp_all
  show ?thesis
    using a d u assms(1) by (simp add: same_disk_def opened_files_def dir_exists_def)
qed

theorem failed_Update_creates_file_witness:
  "files disk0 (path ctl0) = None
   \<and> Update_begin bool_json ctl0 disk0 = Inr (Inr handle0, ctl0, disk0_opened)
   \<and> failing (cached ctl0) = (True, Some (Err ''something failed''))
   \<and> files (final_sys (Update bool_json ctl0 failing disk0)) testFilePath
         = Some \<lparr>content = [], mtime = 5\<rparr>
   \<and> dir_exists (final_sys (Update bool_json ctl0 failing disk0)) (Path True [''tmp''])
   \<and> Update bool_json ctl0 failing disk0 =
       Inr (Some (Err ''something failed''), ctl0,
            logs [Call CSeek, Call CRead, Call CClose] disk0_opened)"
proof -
  have a: "files disk0 (path ctl0) = None" by (simp add: disk0_def)
  have b: "Update_begin bool_json ctl0 disk0 = Inr (Inr handle0, ctl0, disk0_opened)"
    by (rule begin0) (simp add: ctl0_fields)
  have f: "failing (cached ctl0) = (True, Some (Err ''something failed''))" by (simp add: failing_def)
  have p: "path ctl0 = testFilePath" "Dir testFilePath = Path True [''tmp'']" "now disk0 = 5"
    by (simp_all add: ctl0_fields Dir_def testFilePath_def disk0_def)
  have sk: "fault disk0 OpSeek = None" by (simp add: disk0_def)
  have r: "restored bool_json ctl0 (on_disk ctl0 disk0_opened) True = Some False"
    by (simp add: on_disk_def disk0_opened_def ctl0_fields restored_bool [unfolded ctl0_fields])
  have c: "ctl0\<lparr>cached := observed ctl0 False\<rparr> = ctl0" "fired ctl0 False = []"
    by (simp_all add: ctl0_fields observed_def fired_def)
  have u: "Update bool_json ctl0 failing disk0 =
       Inr (Some (Err ''something failed''), ctl0,
            logs [Call CSeek, Call CRead, Call CClose] disk0_opened)"
    using Update_rolls_back [where f=failing, OF b f sk r] by (simp add: c)
  have w: "files (final_sys (Update bool_json ctl0 failing disk0)) testFilePath
             = Some \<lparr>content = [], mtime = 5\<rparr>
         \<and> dir_exists (final_sys (Update bool_json ctl0 failing disk0)) (Path True [''tmp''])"
    using failed_Update_creates_file [where f=failing, OF a b f refl] by (simp add: p)
  show ?thesis using a b f u w by simp
qed

text \<open>
  C10. An update that got as far as calling the update function, whose function returns a
  failure, of a controller with a loaded callback; the \<^verbatim>\<open>Seek\<close> of the rollback
  does not fail and the contents of the file decode (to a value, or to the default when
  they are empty). The rollback calls the callback with the restored value \<open>r\<close>, after
  the read and before the handle is closed and the update returns, and the cache holds
  what the callback left.
\<close>

theorem rollback_fires_callback:
  assumes "Update_begin js lf s = Inr (Inr h, lf1, s1)"
      and "f (cached lf1) = (v, Some err)"
      and "fault s OpSeek = None"
      and "restored js lf1 (on_disk lf s1) v = Some r"
      and "onLoaded lf = Some g"
  shows "Update js lf f s =
           Inr (Some err, lf1\<lparr>cached := g r\<rparr>,
                logs [Call CSeek, Call CRead, Loaded r, Call CClose] s1)"
proof -
  have "onLoaded lf1 = Some g"
    using Update_begin_post [OF assms(1)] assms(5) by (simp add: same_setup_def)
  then show ?thesis
    using Update_rolls_back [where f=f, OF assms(1-4)] by (simp add: observed_def fired_def)
qed

theorem rollback_fires_callback_witness:
  "Update_begin bool_json ctl_watch disk0 = Inr (Inr handle0, ctl_watch, disk0_opened)
   \<and> onLoaded ctl_watch = Some (\<lambda>v. v)
   \<and> Update bool_json ctl_watch failing disk0 =
       Inr (Some (Err ''something failed''), ctl_watch,
            logs [Call CSeek, Call CRead, Loaded False, Call CClose] disk0_opened)"
proof -
  have b: "Update_begin bool_json ctl_watch disk0 = Inr (Inr handle0, ctl_watch, disk0_opened)"
    by (rule begin0) (simp add: ctl_watch_fields)
  have f: "failing (cached ctl_watch) = (True, Some (Err ''something failed''))" by (simp add: failing_def)
  have sk: "fault disk0 OpSeek = None" by (simp add: disk0_def)
  have r: "restored bool_json ctl_watch (on_disk ctl_watch disk0_opened) True = Some False"
    by (simp add: on_disk_def disk0_opened_def ctl_watch_fields restored_bool [unfolded ctl_watch_fields])
  have o: "onLoaded ctl_watch = Some (\<lambda>v. v)" by (simp add: ctl_watch_fields)
  have c: "ctl_watch\<lparr>cached := False\<rparr> = ctl_watch" by (simp add: ctl_watch_fields)
  show ?thesis
    using b o rollback_fires_callback [where f=failing, OF b f sk r o]
    by (simp add: c)
qed

text \<open>
  C1. A failed update does not always roll the cached value back to the previous value: a
  snapshot after it can differ from the snapshot before it. The controller stores
  \<^verbatim>\<open>true\<close>, another process removes the file, and a snapshot still returns
  \<^verbatim>\<open>true\<close>. An update whose function sets the value and returns a failure then
  opens the file, which creates it empty, and the rollback, which reloads from the handle
  and keeps no copy of the previous value, sets the cache to the default. The update returns
  the failure and the next snapshot returns \<^verbatim>\<open>false\<close>.
\<close>

theorem failed_Update_loses_snapshot:
  "outputs (run bool_json [DoUpdate setTrue, ExtRemove, DoPeek, DoUpdate failing, DoPeek]
             (ctl0, disk0))
     = [Updated None, Outside, Peeked True, Updated (Some (Err ''something failed'')),
        Peeked False]"
  by code_simp

text \<open>
  What the rollback computes. An update that got as far as calling the update function,
  whose function returns a failure; \<^verbatim>\<open>Open\<close> and \<^verbatim>\<open>Seek\<close> do not fail and
  the contents of the file decode. The update returns the failure of the function as it is
  and no file changes: the calls of the rollback are \<^verbatim>\<open>Seek\<close>, the read and
  \<^verbatim>\<open>Close\<close>. A snapshot before the update would have returned the value the
  function was called on, \<open>cached lf1\<close>. The cache after the update, and the
  snapshot after it, is \<open>r\<close>: what decoding the contents of the file into \<open>v\<close>, the
  value the function left, yields, or the default when the file is empty. The previous
  value does not occur in \<open>r\<close>: the two snapshots agree only when the file decodes,
  over \<open>v\<close>, to the value that was cached.
\<close>

lemma rollback_reloads_file:
  assumes "Update_begin js lf s = Inr (Inr h, lf1, s1)"
      and "f (cached lf1) = (v, Some err)"
      and "fault s OpOpen = None" and "fault s OpSeek = None"
      and "restored js lf1 (on_disk lf s1) v = Some r"
      and "lf' = lf1\<lparr>cached := observed lf1 r\<rparr>"
      and "s' = logs ([Call CSeek, Call CRead] @ fired lf1 r @ [Call CClose]) s1"
  shows "Update js lf f s = Inr (Some err, lf', s')
       \<and> files s' = files s1
       \<and> (\<exists>se. Peek js lf s = Inr (cached lf1, lf1, se))
       \<and> Peek js lf' s' =
           Inr (observed lf1 r, lf', logs [Call (COpen (path lf)), Call CStat, Call CClose] s')"
proof -
  have u: "Update js lf f s = Inr (Some err, lf', s')"
    using Update_rolls_back [where f=f, OF assms(1,2,4,5)] assms(6,7) by simp
  have b: "\<exists>se. Peek js lf s = Inr (cached lf1, lf1, se)"
    using Update_begin_post [OF assms(1)] assms(3) by (auto simp add: Peek_def)
  have a: "Peek js lf' s' =
             Inr (observed lf1 r, lf', logs [Call (COpen (path lf)), Call CStat, Call CClose] s')"
    using Peek_after_begin [OF assms(1,3)] assms(6,7) by simp
  show ?thesis using u b a assms(7) by simp
qed

lemma rollback_reloads_file_example:
  "Update_begin bool_json ctl0 disk0 = Inr (Inr handle0, ctl0, disk0_opened)
   \<and> failing (cached ctl0) = (True, Some (Err ''something failed''))
   \<and> restored bool_json ctl0 (on_disk ctl0 disk0_opened) True = Some False
   \<and> Update bool_json ctl0 failing disk0 =
       Inr (Some (Err ''something failed''), ctl0, logs [Call CSeek, Call CRead, Call CClose] disk0_opened)
   \<and> (\<exists>se. Peek bool_json ctl0 disk0 = Inr (False, ctl0, se))
   \<and> Peek bool_json ctl0 (logs [Call CSeek, Call CRead, Call CClose] disk0_opened) =
       Inr (False, ctl0,
            logs [Call CSeek, Call CRead, Call CClose, Call (COpen testFilePath), Call CStat, Call CClose]
              disk0_opened)"
proof -
  have b: "Update_begin bool_json ctl0 disk0 = Inr (Inr handle0, ctl0, disk0_opened)"
    by (rule begin0) (simp add: ctl0_fields)
  have f: "failing (cached ctl0) = (True, Some (Err ''something failed''))" by (simp add: failing_def)
  have r: "restored bool_json ctl0 (on_disk ctl0 disk0_opened) True = Some False"
    by (simp add: on_disk_def disk0_opened_def ctl0_fields restored_bool [unfolded ctl0_fields])
  have fl: "fault disk0 OpOpen = None" "fault disk0 OpSeek = None" by (simp_all add: disk0_def)
  have c: "ctl0\<lparr>cached := observed ctl0 False\<rparr> = ctl0" by (simp add: ctl0_fields observed_def)
  show ?thesis
    using b f r rollback_reloads_file [where f=failing, OF b f fl r refl refl]
    by (simp add: c) (simp add: ctl0_fields observed_def fired_def)
qed



subsection \<open>The last-known modification time\<close>

text \<open>
  C7 does not hold as stated: a successful update sets the last-known modification time
  to the time the file has after the write, whatever it was before. The file is dated
  100 and the clock reads 50. The snapshot loads the file and the last-known modification
  time becomes 100; the update writes the file, which stamps it 50, and the last-known
  modification time becomes 50.
\<close>

theorem Update_turns_lastModTime_back:
  "modTimes (run bool_json [DoPeek, DoUpdate keep] (ctl0, disk_ahead)) = [100, 50]"
  by code_simp

text \<open>
  C7, amended. From a state in which neither the last-known modification time nor the
  file is dated ahead of the clock, over every sequence of views, snapshots and updates,
  with writes and removals of the file by other processes and advances of the clock in
  between, the last-known modification time never decreases: its values after the steps,
  up to the first panic, are sorted.
\<close>

theorem lastModTime_never_decreases:
  assumes "stamps_ok (lf, s)"
  shows "sorted (lastModTime lf # modTimes (run js sts (lf, s)))"
  using assms
proof (induction sts arbitrary: lf s)
  case Nil
  then show ?case by (simp add: modTimes_def)
next
  case (Cons st sts)
  show ?case
  proof (cases "step js st (lf, s)")
    case (Inl c)
    then show ?thesis by (simp add: modTimes_def)
  next
    case (Inr t)
    obtain out lf' s' where t: "t = (out, lf', s')" by (cases t)
    from step_stamps [of js st lf s out lf' s'] Inr t Cons.prems
    have m: "lastModTime lf \<le> lastModTime lf'" and k: "stamps_ok (lf', s')" by simp_all
    from Cons.IH [OF k] have "sorted (lastModTime lf' # modTimes (run js sts (lf', s')))" .
    with m have "sorted (lastModTime lf # lastModTime lf' # modTimes (run js sts (lf', s')))"
      by (simp only: sorted2 simp_thms)
    with Inr t show ?thesis by (simp add: modTimes_def)
  qed
qed

theorem lastModTime_never_decreases_witness:
  "stamps_ok (ctl0, disk0)
   \<and> modTimes (run bool_json [DoUpdate setTrue, Tick 1, ExtWrite ''false'', DoPeek] (ctl0, disk0))
       = [5, 5, 5, 6]
   \<and> sorted (lastModTime ctl0
         # modTimes (run bool_json [DoUpdate setTrue, Tick 1, ExtWrite ''false'', DoPeek] (ctl0, disk0)))"
proof -
  have a: "stamps_ok (ctl0, disk0)" by (simp add: stamps_ok_def ctl0_fields disk0_def)
  have b: "sorted (lastModTime ctl0
         # modTimes (run bool_json [DoUpdate setTrue, Tick 1, ExtWrite ''false'', DoPeek] (ctl0, disk0)))"
    by (rule lastModTime_never_decreases [OF a])
  show ?thesis using a b run_example_modTimes by blast
qed

end
